theory Spec2Isabelle
  imports Complex_Main "HOL-Library.Sublist"
begin

section \<open>EZCollections Manager: a shallow embedding\<close>

text \<open>
  The add-on lives in two files: \<^verbatim>\<open>EZCollections.py\<close> (version 2.4) and
  \<^verbatim>\<open>EZCollections Manager(old).py\<close> (version 1.2). Every operator reads and
  mutates the host's scene graph, so the embedding passes an explicit scene state
  through each function. Names are Python \<^verbatim>\<open>str\<close> values, modelled as
  \<^typ>\<open>string\<close>: lists of characters with code points 0 to 255.
\<close>

subsection \<open>Decimal rendering of a counter\<close>

text \<open>
  The f-string \<^verbatim>\<open>f"{base_name}_{counter}"\<close> renders the counter with
  \<^verbatim>\<open>str(int)\<close>: decimal digits, most significant first, no leading zero. The
  counter starts at 1 and only grows, so it is a natural number.
\<close>

definition digit_char :: "nat \<Rightarrow> char" where
  "digit_char d = ''0123456789'' ! d"

definition digit_val :: "char \<Rightarrow> nat" where
  "digit_val c = length (takeWhile (\<lambda>x. x \<noteq> c) ''0123456789'')"

function str_nat :: "nat \<Rightarrow> string" where
  "str_nat n =
     (if n < 10 then [digit_char n] else str_nat (n div 10) @ [digit_char (n mod 10)])"
  by pat_completeness auto
termination
  by (relation "measure id") auto

declare str_nat.simps [simp del]

definition nat_of_str :: "string \<Rightarrow> nat" where
  "nat_of_str s = foldl (\<lambda>a c. 10 * a + digit_val c) 0 s"

definition numbered :: "string \<Rightarrow> nat \<Rightarrow> string" where
  "numbered base_name counter = base_name @ ''_'' @ str_nat counter"

lemma digit_val_digit_char: "d < 10 \<Longrightarrow> digit_val (digit_char d) = d"
proof -
  assume "d < 10"
  then have "d \<in> set [0..<10]" by simp
  then show ?thesis
    by (auto simp: upt_rec digit_val_def digit_char_def)
qed

lemma nat_of_str_str_nat: "nat_of_str (str_nat n) = n"
proof (induction n rule: str_nat.induct)
  case (1 n)
  show ?case
  proof (cases "n < 10")
    case True
    then show ?thesis
      by (subst str_nat.simps) (simp add: nat_of_str_def digit_val_digit_char)
  next
    case False
    have "nat_of_str (str_nat n) =
        10 * nat_of_str (str_nat (n div 10)) + digit_val (digit_char (n mod 10))"
      using False by (subst str_nat.simps) (simp add: nat_of_str_def)
    also have "\<dots> = 10 * (n div 10) + n mod 10"
      using "1.IH" False by (simp add: digit_val_digit_char)
    finally show ?thesis by simp
  qed
qed

lemma inj_str_nat: "inj str_nat"
  by (rule inj_on_inverseI [where g = nat_of_str]) (rule nat_of_str_str_nat)

lemma inj_numbered: "inj (numbered base_name)"
  by (rule injI) (simp add: numbered_def inj_eq [OF inj_str_nat])

lemma finite_numbered_hits: "finite {i. numbered base_name i \<in> set existing_names}"
proof -
  have "finite (numbered base_name -` set existing_names)"
    by (rule finite_vimageI [OF _ inj_numbered]) simp
  then show ?thesis by (simp add: vimage_def)
qed

text \<open>
  The quantity that shrinks at every turn of the uniquification loop: the numbered
  candidates from the current counter on that are taken, plus one while the current
  name itself is taken.
\<close>

definition pending :: "string \<Rightarrow> string list \<Rightarrow> string \<Rightarrow> nat \<Rightarrow> nat" where
  "pending base_name existing_names name counter =
     card {i. counter \<le> i \<and> numbered base_name i \<in> set existing_names}
       + (if name \<in> set existing_names then 1 else 0)"

lemma pending_decreases:
  assumes "name \<in> set existing_names"
  shows "pending base_name existing_names (numbered base_name counter) (Suc counter)
           < pending base_name existing_names name counter"
proof -
  let ?hit = "\<lambda>i. numbered base_name i \<in> set existing_names"
  have fin: "finite {i. counter \<le> i \<and> ?hit i}"
    by (rule finite_subset [OF _ finite_numbered_hits [of base_name existing_names]]) auto
  have split: "{i. counter \<le> i \<and> ?hit i} =
      (if ?hit counter then {counter} else {}) \<union> {i. Suc counter \<le> i \<and> ?hit i}"
    by (auto simp: Suc_le_eq le_less)
  have fin': "finite {i. Suc counter \<le> i \<and> ?hit i}"
    by (rule finite_subset [OF _ fin]) auto
  have "card {i. counter \<le> i \<and> ?hit i} =
      (if ?hit counter then 1 else 0) + card {i. Suc counter \<le> i \<and> ?hit i}"
  proof (cases "?hit counter")
    case True
    have "card ({counter} \<union> {i. Suc counter \<le> i \<and> ?hit i}) =
        card {counter} + card {i. Suc counter \<le> i \<and> ?hit i}"
      by (rule card_Un_disjoint) (use fin' in auto)
    then show ?thesis using True split by simp
  next
    case False
    then show ?thesis using split by simp
  qed
  then show ?thesis
    using assms by (simp add: pending_def)
qed

subsection \<open>Name uniquification\<close>

text \<open>
  Version 2.4, \<^verbatim>\<open>generate_unique_name(base_name, existing_names)\<close>:
  \<^verbatim>\<open>
    name = base_name
    counter = 1
    while name in existing_names:
        name = f"{base_name}_{counter}"
        counter += 1
    return name
  \<close>
\<close>

function generate_unique_name_loop ::
  "string \<Rightarrow> string list \<Rightarrow> string \<Rightarrow> nat \<Rightarrow> string" where
  "generate_unique_name_loop base_name existing_names name counter =
     (if name \<in> set existing_names
      then generate_unique_name_loop base_name existing_names
             (numbered base_name counter) (Suc counter)
      else name)"
  by pat_completeness auto
termination
  by (relation "measure (\<lambda>(b, e, n, c). pending b e n c)")
     (auto intro: pending_decreases)

declare generate_unique_name_loop.simps [simp del]

definition generate_unique_name :: "string \<Rightarrow> string list \<Rightarrow> string" where
  "generate_unique_name base_name existing_names =
     generate_unique_name_loop base_name existing_names base_name 1"

text \<open>
  Version 1.2, inline in \<^verbatim>\<open>OBJECT_OT_ez_create_collection.execute\<close>:
  \<^verbatim>\<open>
    existing = [c.name for c in bpy.data.collections if c.name.startswith(base)]
    name = base; i = 1
    while name in existing:
        name = f"{base}_{i}"
        i += 1
  \<close>
  The function takes the names of \<^verbatim>\<open>bpy.data.collections\<close>.
\<close>

function old_unique_name_loop ::
  "string \<Rightarrow> string list \<Rightarrow> string \<Rightarrow> nat \<Rightarrow> string" where
  "old_unique_name_loop base existing name i =
     (if name \<in> set existing
      then old_unique_name_loop base existing (numbered base i) (Suc i)
      else name)"
  by pat_completeness auto
termination
  by (relation "measure (\<lambda>(b, e, n, c). pending b e n c)")
     (auto intro: pending_decreases)

declare old_unique_name_loop.simps [simp del]

definition old_unique_name :: "string \<Rightarrow> string list \<Rightarrow> string" where
  "old_unique_name base collection_names =
     old_unique_name_loop base (filter (prefix base) collection_names) base 1"

subsection \<open>The host's scene data\<close>

text \<open>
  The add-on owns no data: it works on the host's datablocks. The part of them the
  operators read or write is modelled here.
  \<^item> A collection (\<^verbatim>\<open>bpy.types.Collection\<close>): its name, the two visibility flags,
    the colour tag, the custom property \<^verbatim>\<open>"ez_pivot"\<close> (absent or a name), and the
    names of its child collections and of its objects, in order.
  \<^item> An object (\<^verbatim>\<open>bpy.types.Object\<close>): its name, type, parent, local location,
    the translation of \<^verbatim>\<open>matrix_world\<close>, the display settings the pivot factory
    writes, the visibility flags and the selection flag.
  \<^item> The scene: \<^verbatim>\<open>bpy.data.collections\<close>, \<^verbatim>\<open>bpy.data.objects\<close>, the scene's
    root collection \<^verbatim>\<open>context.scene.collection\<close> (which is not a member of
    \<^verbatim>\<open>bpy.data.collections\<close>), the custom property \<^verbatim>\<open>"ez_solo_backup"\<close> of the
    scene, the active layer collection and active object of the view layer, and the
    module's global \<^verbatim>\<open>_last_selected\<close>.

  The host keeps the names of the datablocks of one kind unique, so a reference to a
  datablock is modelled as its name; the root collection has a reference of its own.
  Mesh and material datablocks (made by the pivot factory, read by nothing here) are
  left out.

  A position is a \<^verbatim>\<open>mathutils.Vector\<close> of single-precision floats, and the sum of two
  vectors or the quotient of one by a number is computed by the host, rounding and
  overflow included: that arithmetic is no part of the add-on and nothing is assumed
  of it. A vector is the three floats a scene holds, or the zero vector
  \<^verbatim>\<open>Vector()\<close>, or a sum or quotient the add-on asks the host for, kept as asked.
\<close>

type_synonym name = string

typedecl float

datatype vector =
    Vector float float float
  | Vector_zero
  | Vector_add vector vector
  | Vector_div vector nat

datatype collection_ref = Scene_Collection | Data_Collection name

record collection =
  col_name :: name
  col_hide_viewport :: bool
  col_hide_render :: bool
  col_color_tag :: string
  col_ez_pivot :: "name option"
  col_children :: "name list"
  col_objects :: "name list"

record object =
  ob_name :: name
  ob_type :: string
  ob_parent :: "name option"
  ob_location :: vector
  ob_world :: vector
  ob_display_type :: string
  ob_show_in_front :: bool
  ob_show_name :: bool
  ob_hide_viewport :: bool
  ob_hide_render :: bool
  ob_selected :: bool

record scene =
  collections :: "collection list"
  objects :: "object list"
  scene_collection :: collection
  solo_backup :: "(name \<times> bool) list option"
  active_layer_collection :: "collection_ref option"
  active_object :: "name option"
  last_selected :: "name set"

text \<open>
  What an operator hands back: how \<^verbatim>\<open>execute\<close> ended, what it reported through
  \<^verbatim>\<open>self.report\<close>, and the scene it leaves. \<open>Raised\<close> stands for a
  \<^verbatim>\<open>RuntimeError\<close> of the host that leaves \<^verbatim>\<open>execute\<close> as an exception: the
  scene then stays as it was when the call failed.
\<close>

datatype outcome = Finished | Cancelled | Raised

datatype level = INFO | WARNING | ERROR

datatype message =
    No_active_collection_in_outliner
  | Select_at_least_one_object
  | Collection_name_empty
  | Collection_created name
  | Not_an_ezcollection
  | Pivot_not_found
  | No_valid_objects_selected
  | Objects_added nat name
  | Objects_removed nat name
  | Pivot_unlocked name
  | Pivot_locked name
  | Solo_on name
  | Solo_off
  | Select_two_ezcollections
  | Parent_name_empty
  | No_valid_pivots
  | Merged nat name
  | No_child_ezcollections
  | Unmerged nat name

type_synonym result = "outcome \<times> (level \<times> message) list \<times> scene"

definition status :: "result \<Rightarrow> outcome" where
  "status r = fst r"


definition scene_of :: "result \<Rightarrow> scene" where
  "scene_of r = snd (snd r)"

subsection \<open>Looking up and updating datablocks\<close>

text \<open>
  \<^verbatim>\<open>bpy.data.objects.get(name)\<close> and \<^verbatim>\<open>bpy.data.collections.get(name)\<close> give
  \<^verbatim>\<open>None\<close> for a name that is not there.
\<close>

definition get_object :: "scene \<Rightarrow> name \<Rightarrow> object option" where
  "get_object s n = find (\<lambda>ob. ob_name ob = n) (objects s)"

definition get_collection :: "scene \<Rightarrow> name \<Rightarrow> collection option" where
  "get_collection s n = find (\<lambda>c. col_name c = n) (collections s)"

definition deref :: "scene \<Rightarrow> collection_ref \<Rightarrow> collection option" where
  "deref s r =
     (case r of Scene_Collection \<Rightarrow> Some (scene_collection s)
      | Data_Collection n \<Rightarrow> get_collection s n)"

definition update_object :: "name \<Rightarrow> (object \<Rightarrow> object) \<Rightarrow> scene \<Rightarrow> scene" where
  "update_object n f s =
     s\<lparr>objects := map (\<lambda>ob. if ob_name ob = n then f ob else ob) (objects s)\<rparr>"

definition update_collection ::
  "collection_ref \<Rightarrow> (collection \<Rightarrow> collection) \<Rightarrow> scene \<Rightarrow> scene" where
  "update_collection r f s =
     (case r of
        Scene_Collection \<Rightarrow> s\<lparr>scene_collection := f (scene_collection s)\<rparr>
      | Data_Collection n \<Rightarrow>
          s\<lparr>collections := map (\<lambda>c. if col_name c = n then f c else c) (collections s)\<rparr>)"

text \<open>Attribute reads through a reference; a name that is not there reads as unset.\<close>

definition parent_of :: "scene \<Rightarrow> name \<Rightarrow> name option" where
  "parent_of s n = (case get_object s n of None \<Rightarrow> None | Some ob \<Rightarrow> ob_parent ob)"

definition world_translation :: "scene \<Rightarrow> name \<Rightarrow> vector" where
  "world_translation s n =
     (case get_object s n of None \<Rightarrow> Vector_zero | Some ob \<Rightarrow> ob_world ob)"

definition objects_of :: "scene \<Rightarrow> collection_ref \<Rightarrow> name list" where
  "objects_of s r = (case deref s r of None \<Rightarrow> [] | Some c \<Rightarrow> col_objects c)"

definition children_of :: "scene \<Rightarrow> collection_ref \<Rightarrow> name list" where
  "children_of s r = (case deref s r of None \<Rightarrow> [] | Some c \<Rightarrow> col_children c)"

text \<open>\<^verbatim>\<open>context.selected_objects\<close>, as references.\<close>

definition selected_objects :: "scene \<Rightarrow> name list" where
  "selected_objects s = map ob_name (filter ob_selected (objects s))"

text \<open>
  \<^verbatim>\<open>obj.users_collection\<close>: the collections whose objects hold \<^verbatim>\<open>obj\<close>, the
  scene's root collection among them.
\<close>

definition users_collection :: "scene \<Rightarrow> name \<Rightarrow> collection_ref list" where
  "users_collection s n =
     map (\<lambda>c. Data_Collection (col_name c)) (filter (\<lambda>c. n \<in> set (col_objects c)) (collections s))
     @ (if n \<in> set (col_objects (scene_collection s)) then [Scene_Collection] else [])"

subsection \<open>Host calls\<close>

text \<open>
  The host names a new datablock itself: it takes the requested name and the names in
  use and settles on the name the datablock gets. That rule is a parameter of every
  function that makes a datablock.
\<close>

type_synonym host_naming = "name \<Rightarrow> name list \<Rightarrow> name"

definition new_collection :: "name \<Rightarrow> collection" where
  "new_collection n =
     \<lparr>col_name = n, col_hide_viewport = False, col_hide_render = False,
      col_color_tag = ''NONE'', col_ez_pivot = None, col_children = [], col_objects = []\<rparr>"

definition new_object :: "name \<Rightarrow> object" where
  "new_object n =
     \<lparr>ob_name = n, ob_type = ''MESH'', ob_parent = None, ob_location = Vector_zero,
      ob_world = Vector_zero, ob_display_type = ''TEXTURED'', ob_show_in_front = False,
      ob_show_name = False, ob_hide_viewport = False, ob_hide_render = False,
      ob_selected = False\<rparr>"

text \<open>
  \<^verbatim>\<open>bpy.data.collections.new(name)\<close> and \<^verbatim>\<open>bpy.data.objects.new(name, mesh)\<close>:
  the name the datablock got, and the scene with it.
\<close>

definition collections_new :: "host_naming \<Rightarrow> name \<Rightarrow> scene \<Rightarrow> name \<times> scene" where
  "collections_new host_name n s =
     (let actual = host_name n (map col_name (collections s))
      in (actual, s\<lparr>collections := collections s @ [new_collection actual]\<rparr>))"

definition objects_new :: "host_naming \<Rightarrow> name \<Rightarrow> scene \<Rightarrow> name \<times> scene" where
  "objects_new host_name n s =
     (let actual = host_name n (map ob_name (objects s))
      in (actual, s\<lparr>objects := objects s @ [new_object actual]\<rparr>))"

text \<open>
  \<^verbatim>\<open>col.objects.link(obj)\<close> and \<^verbatim>\<open>col.children.link(child)\<close> raise a
  \<^verbatim>\<open>RuntimeError\<close> when the member is already linked (\<open>Inl\<close>, with the scene
  untouched); the root collection cannot be linked as a child. The two
  \<^verbatim>\<open>unlink\<close> calls are only ever made on a member.
\<close>

definition objects_link :: "collection_ref \<Rightarrow> name \<Rightarrow> scene \<Rightarrow> scene + scene" where
  "objects_link r n s =
     (if n \<in> set (objects_of s r) then Inl s
      else Inr (update_collection r (\<lambda>c. c\<lparr>col_objects := col_objects c @ [n]\<rparr>) s))"

definition objects_unlink :: "collection_ref \<Rightarrow> name \<Rightarrow> scene \<Rightarrow> scene" where
  "objects_unlink r n s =
     update_collection r (\<lambda>c. c\<lparr>col_objects := removeAll n (col_objects c)\<rparr>) s"

definition children_link :: "collection_ref \<Rightarrow> collection_ref \<Rightarrow> scene \<Rightarrow> scene + scene" where
  "children_link r child s =
     (case child of
        Scene_Collection \<Rightarrow> Inl s
      | Data_Collection n \<Rightarrow>
          if n \<in> set (children_of s r) then Inl s
          else Inr (update_collection r (\<lambda>c. c\<lparr>col_children := col_children c @ [n]\<rparr>) s))"

definition children_unlink :: "collection_ref \<Rightarrow> collection_ref \<Rightarrow> scene \<Rightarrow> scene" where
  "children_unlink r child s =
     (case child of
        Scene_Collection \<Rightarrow> s
      | Data_Collection n \<Rightarrow>
          update_collection r (\<lambda>c. c\<lparr>col_children := removeAll n (col_children c)\<rparr>) s)"

text \<open>Sequencing calls that may raise, and a \<^verbatim>\<open>for\<close> loop whose body may raise.\<close>

definition and_then :: "scene + scene \<Rightarrow> (scene \<Rightarrow> scene + scene) \<Rightarrow> scene + scene" where
  "and_then r f = (case r of Inl e \<Rightarrow> Inl e | Inr s \<Rightarrow> f s)"

fun for_each :: "('a \<Rightarrow> scene \<Rightarrow> scene + scene) \<Rightarrow> 'a list \<Rightarrow> scene \<Rightarrow> scene + scene" where
  "for_each body [] s = Inr s"
| "for_each body (x # xs) s =
     (case body x s of Inl e \<Rightarrow> Inl e | Inr s' \<Rightarrow> for_each body xs s')"

text \<open>
  \<^verbatim>\<open>bpy.ops.object.select_all(action='DESELECT')\<close>, \<^verbatim>\<open>obj.select_set(True)\<close> and
  \<^verbatim>\<open>context.view_layer.objects.active = obj\<close>.
\<close>

definition select_all_deselect :: "scene \<Rightarrow> scene" where
  "select_all_deselect s = s\<lparr>objects := map (\<lambda>ob. ob\<lparr>ob_selected := False\<rparr>) (objects s)\<rparr>"

definition select_set :: "name \<Rightarrow> scene \<Rightarrow> scene" where
  "select_set n s = update_object n (\<lambda>ob. ob\<lparr>ob_selected := True\<rparr>) s"

definition set_active :: "name \<Rightarrow> scene \<Rightarrow> scene" where
  "set_active n s = s\<lparr>active_object := Some n\<rparr>"

text \<open>
  \<^verbatim>\<open>bpy.ops.object.parent_set(type='OBJECT', keep_transform=True)\<close> makes the active
  object the parent of every other selected object, and
  \<^verbatim>\<open>bpy.ops.object.parent_clear(type='CLEAR_KEEP_TRANSFORM')\<close> clears the parent of
  every selected object, its world transform becoming its own. Both are taken where
  the host accepts the call.
\<close>

definition parent_set :: "scene \<Rightarrow> scene" where
  "parent_set s =
     (case active_object s of
        None \<Rightarrow> s
      | Some a \<Rightarrow>
          s\<lparr>objects :=
               map (\<lambda>ob. if ob_selected ob \<and> ob_name ob \<noteq> a then ob\<lparr>ob_parent := Some a\<rparr> else ob)
                 (objects s)\<rparr>)"

definition parent_clear :: "scene \<Rightarrow> scene" where
  "parent_clear s =
     s\<lparr>objects :=
          map (\<lambda>ob. if ob_selected ob then ob\<lparr>ob_parent := None, ob_location := ob_world ob\<rparr> else ob)
            (objects s)\<rparr>"

subsection \<open>Helpers of the add-on\<close>

text \<open>
  \<^verbatim>\<open>str.strip()\<close> removes the leading and trailing characters for which
  \<^verbatim>\<open>str.isspace\<close> holds. A string here is a list of the code points 0 to 255, and
  among those Python counts twelve as space: tab to carriage return, the four
  separators \<^verbatim>\<open>0x1C\<close> to \<^verbatim>\<open>0x1F\<close>, the space, next line (\<^verbatim>\<open>0x85\<close>) and the no-break
  space (\<^verbatim>\<open>0xA0\<close>).
\<close>

definition is_space :: "char \<Rightarrow> bool" where
  "is_space c \<longleftrightarrow>
     c \<in> set [CHR 0x09, CHR 0x0A, CHR 0x0B, CHR 0x0C, CHR 0x0D,
              CHR 0x1C, CHR 0x1D, CHR 0x1E, CHR 0x1F, CHR 0x20, CHR 0x85, CHR 0xA0]"

definition strip :: "string \<Rightarrow> string" where
  "strip t = rev (dropWhile is_space (rev (dropWhile is_space t)))"

text \<open>
  \<^verbatim>\<open>sum(vectors, Vector()) / len(vectors)\<close>: Python's \<^verbatim>\<open>sum\<close> adds from the
  left, starting at the zero vector. Both callers make sure the list is not empty.
\<close>

definition vector_mean :: "vector list \<Rightarrow> vector" where
  "vector_mean vs = Vector_div (foldl Vector_add Vector_zero vs) (length vs)"

definition set_visibility :: "collection \<Rightarrow> bool \<Rightarrow> collection" where
  "set_visibility c visible =
     c\<lparr>col_hide_viewport := \<not> visible, col_hide_render := \<not> visible\<rparr>"

definition is_ez_collection :: "collection \<Rightarrow> bool" where
  "is_ez_collection c \<longleftrightarrow> col_ez_pivot c \<noteq> None"

definition is_ez :: "scene \<Rightarrow> collection_ref \<Rightarrow> bool" where
  "is_ez s r = (case deref s r of None \<Rightarrow> False | Some c \<Rightarrow> is_ez_collection c)"

definition get_collection_pivot :: "scene \<Rightarrow> collection_ref \<Rightarrow> object option" where
  "get_collection_pivot s r =
     (case deref s r of
        None \<Rightarrow> None
      | Some c \<Rightarrow> (case col_ez_pivot c of None \<Rightarrow> None | Some n \<Rightarrow> get_object s n))"

definition set_hide_viewport :: "name \<Rightarrow> bool \<Rightarrow> scene \<Rightarrow> scene" where
  "set_hide_viewport n h s = update_object n (\<lambda>ob. ob\<lparr>ob_hide_viewport := h\<rparr>) s"

definition hide_all_pivots :: "scene \<Rightarrow> scene" where
  "hide_all_pivots s =
     fold (\<lambda>col s'.
             case col_ez_pivot col of
               None \<Rightarrow> s'
             | Some n \<Rightarrow>
                 (case get_object s' n of
                    None \<Rightarrow> s'
                  | Some pivot \<Rightarrow> set_hide_viewport (ob_name pivot) True s'))
       (collections s) s"

text \<open>
  \<^verbatim>\<open>create_smart_pivot(collection_name, location, is_parent)\<close>; the result is the
  reference to the new pivot. A new object has no parent, so the host's
  \<^verbatim>\<open>matrix_world\<close> of it is its location.
\<close>

definition create_smart_pivot ::
  "host_naming \<Rightarrow> name \<Rightarrow> vector \<Rightarrow> bool \<Rightarrow> scene \<Rightarrow> name \<times> scene" where
  "create_smart_pivot host_name collection_name location is_parent s =
     (case objects_new host_name (''Pivot_'' @ collection_name) s of
        (pivot, s1) \<Rightarrow>
          (pivot,
           update_object pivot
             (\<lambda>ob. ob\<lparr>ob_location := location, ob_world := location,
                      ob_display_type := ''SOLID'', ob_show_in_front := True,
                      ob_hide_render := True,
                      ob_show_name := (if is_parent then True else ob_show_name ob)\<rparr>) s1))"

definition preserve_parent_hierarchy :: "name list \<Rightarrow> name \<Rightarrow> scene \<Rightarrow> name list \<times> scene" where
  "preserve_parent_hierarchy objs new_parent s =
     (let root_objects =
            filter (\<lambda>obj. case parent_of s obj of None \<Rightarrow> True | Some p \<Rightarrow> p \<notin> set objs) objs;
          s1 = select_all_deselect s;
          s2 = select_set new_parent s1;
          s3 = fold select_set root_objects s2;
          s4 = (if root_objects \<noteq> [] then parent_set (set_active new_parent s3) else s3)
      in (root_objects, s4))"

subsection \<open>The collection hierarchy of an object\<close>

text \<open>
  \<^verbatim>\<open>get_collection_hierarchy(obj)\<close> appends to one list from a nested recursive
  function:
  \<^verbatim>\<open>
    for col in obj.users_collection:
        if is_ez_collection(col):
            hierarchy.append(col)
            def find_parent_collections(child_col):
                for parent_col in bpy.data.collections:
                    if child_col in parent_col.children and is_ez_collection(parent_col):
                        hierarchy.append(parent_col)
                        find_parent_collections(parent_col)
            find_parent_collections(col)
  \<close>
  Two host facts decide what a call does. The test \<^verbatim>\<open>key in parent_col.children\<close> is
  the host's: a \<^verbatim>\<open>bpy_prop_collection\<close> looks a name up and raises \<^verbatim>\<open>TypeError\<close>
  for a key that is no string, and here the key is the collection itself (elsewhere
  the add-on passes \<^verbatim>\<open>obj.name\<close>). And the recursion follows the host's data, so on
  a cycle of collections it would not end; Python then raises \<^verbatim>\<open>RecursionError\<close>.
  The model counts the nesting that is left: a call made with none left is that
  error.
\<close>

datatype exn = RecursionError | TypeError

fun fold_result :: "('a \<Rightarrow> 'b \<Rightarrow> exn + 'b) \<Rightarrow> 'a list \<Rightarrow> 'b \<Rightarrow> exn + 'b" where
  "fold_result f [] acc = Inr acc"
| "fold_result f (x # xs) acc =
     (case f x acc of Inl e \<Rightarrow> Inl e | Inr acc' \<Rightarrow> fold_result f xs acc')"

text \<open>
  \<^verbatim>\<open>key in collection\<close> on a \<^verbatim>\<open>bpy_prop_collection\<close>, whose members are given by
  their names.
\<close>

datatype key = Name_key name | Collection_key collection_ref

definition prop_collection_contains :: "name list \<Rightarrow> key \<Rightarrow> exn + bool" where
  "prop_collection_contains members k =
     (case k of
        Name_key n \<Rightarrow> Inr (n \<in> set members)
      | Collection_key c \<Rightarrow> Inl TypeError)"

primrec find_parent_collections ::
  "nat \<Rightarrow> collection list \<Rightarrow> collection_ref \<Rightarrow> collection_ref list \<Rightarrow> exn + collection_ref list"
where
  "find_parent_collections 0 data_collections child_col hierarchy = Inl RecursionError"
| "find_parent_collections (Suc depth) data_collections child_col hierarchy =
     fold_result
       (\<lambda>parent_col h.
          case prop_collection_contains (col_children parent_col) (Collection_key child_col) of
            Inl e \<Rightarrow> Inl e
          | Inr is_child \<Rightarrow>
              if is_child \<and> is_ez_collection parent_col
              then find_parent_collections depth data_collections
                     (Data_Collection (col_name parent_col))
                     (h @ [Data_Collection (col_name parent_col)])
              else Inr h)
       data_collections hierarchy"

definition get_collection_hierarchy ::
  "nat \<Rightarrow> scene \<Rightarrow> name \<Rightarrow> exn + collection_ref list" where
  "get_collection_hierarchy depth s obj =
     fold_result
       (\<lambda>col h.
          if is_ez s col then find_parent_collections depth (collections s) col (h @ [col])
          else Inr h)
       (users_collection s obj) []"

subsection \<open>The selection timer\<close>

text \<open>
  \<^verbatim>\<open>selection_timer()\<close> runs every 100 ms and always returns \<^verbatim>\<open>0.1\<close>; the model
  returns the scene it leaves. Its body sits in \<^verbatim>\<open>try: ... except: return 0.1\<close>,
  so an exception from the hierarchy walk ends the run where it is. The
  Python iterates over a set of names; the model takes them in the order of
  \<^verbatim>\<open>context.selected_objects\<close>.
\<close>

definition show_pivot ::
  "collection_ref \<Rightarrow> collection_ref list \<times> scene \<Rightarrow> collection_ref list \<times> scene" where
  "show_pivot col st =
     (case st of
        (shown_collections, s) \<Rightarrow>
          if col \<in> set shown_collections then st
          else (case get_collection_pivot s col of
                  None \<Rightarrow> st
                | Some pivot \<Rightarrow>
                    (shown_collections @ [col], set_hide_viewport (ob_name pivot) False s)))"

fun show_hierarchies ::
  "nat \<Rightarrow> name list \<Rightarrow> collection_ref list \<times> scene \<Rightarrow> scene" where
  "show_hierarchies depth [] st = snd st"
| "show_hierarchies depth (obj_name # rest) st =
     (case get_object (snd st) obj_name of
        None \<Rightarrow> show_hierarchies depth rest st
      | Some obj \<Rightarrow>
          (case get_collection_hierarchy depth (snd st) (ob_name obj) of
             Inl e \<Rightarrow> snd st
           | Inr hierarchy \<Rightarrow> show_hierarchies depth rest (fold show_pivot hierarchy st)))"

definition selection_timer :: "nat \<Rightarrow> scene \<Rightarrow> scene" where
  "selection_timer depth s =
     (let current_selected = selected_objects s in
      if set current_selected \<noteq> last_selected s then
        (let s1 = s\<lparr>last_selected := set current_selected\<rparr> in
         if current_selected = [] then hide_all_pivots s1
         else show_hierarchies depth current_selected ([], hide_all_pivots s1))
      else s)"

subsection \<open>The operators\<close>

text \<open>
  Each \<^verbatim>\<open>execute\<close> method is a function from the scene (and the operator's string
  property, where it has one) to a result. \<open>finish\<close> closes a body that may have
  raised: the final report is made only when it has not.
\<close>

definition cancel :: "level \<Rightarrow> message \<Rightarrow> scene \<Rightarrow> result" where
  "cancel l m s = (Cancelled, [(l, m)], s)"

definition finish :: "(level \<times> message) list \<Rightarrow> scene + scene \<Rightarrow> result" where
  "finish rs r = (case r of Inl e \<Rightarrow> (Raised, [], e) | Inr s \<Rightarrow> (Finished, rs, s))"

definition type_of :: "scene \<Rightarrow> name \<Rightarrow> string" where
  "type_of s n = (case get_object s n of None \<Rightarrow> [] | Some ob \<Rightarrow> ob_type ob)"

definition name_of :: "scene \<Rightarrow> collection_ref \<Rightarrow> name" where
  "name_of s r = (case deref s r of None \<Rightarrow> [] | Some c \<Rightarrow> col_name c)"

text \<open>\<^verbatim>\<open>OUTLINER_OT_ez_select_collection.execute\<close>\<close>

definition non_pivot :: "scene \<Rightarrow> name \<Rightarrow> bool" where
  "non_pivot s obj \<longleftrightarrow> \<not> (type_of s obj = ''EMPTY'' \<and> prefix ''Pivot_'' obj)"

definition ez_select_collection_execute :: "scene \<Rightarrow> result" where
  "ez_select_collection_execute s =
     (case active_layer_collection s of
        None \<Rightarrow> cancel WARNING No_active_collection_in_outliner s
      | Some alc \<Rightarrow>
          (let s1 = select_all_deselect s;
               s2 = fold (\<lambda>obj sx. if non_pivot sx obj then select_set obj sx else sx)
                      (objects_of s1 alc) s1;
               s3 = (if objects_of s2 alc \<noteq> [] then
                       (case filter (non_pivot s2) (objects_of s2 alc) of
                          [] \<Rightarrow> s2
                        | obj # _ \<Rightarrow> set_active obj s2)
                     else s2)
           in (Finished, [], s3)))"

text \<open>\<^verbatim>\<open>OBJECT_OT_ez_create_collection.execute\<close> (version 2.4)\<close>

definition relink :: "collection_ref \<Rightarrow> name \<Rightarrow> scene \<Rightarrow> scene + scene" where
  "relink col obj s =
     objects_link col obj
       (fold (\<lambda>parent_col. objects_unlink parent_col obj) (users_collection s obj) s)"

text \<open>
  The second half of \<^verbatim>\<open>execute\<close>, from the loop that moves the selected objects
  into the new collection \<^verbatim>\<open>col\<close> to the selection of the new pivot.
\<close>

definition create_fill ::
  "host_naming \<Rightarrow> name \<Rightarrow> collection_ref \<Rightarrow> name list \<Rightarrow> scene \<Rightarrow> scene + scene" where
  "create_fill host_name collection_name col objs s3 =
     and_then (for_each (relink col) objs s3) (\<lambda>s4.
       (let center = vector_mean (map (world_translation s4) objs)
        in case create_smart_pivot host_name collection_name center False s4 of
             (pivot, s5) \<Rightarrow>
               and_then (objects_link col pivot s5) (\<lambda>s6.
                 (let s7 = snd (preserve_parent_hierarchy objs pivot s6);
                      s8 = update_collection col (\<lambda>c. c\<lparr>col_ez_pivot := Some pivot\<rparr>) s7;
                      s9 = hide_all_pivots s8;
                      s10 = set_hide_viewport pivot False s9;
                      s11 = select_all_deselect s10;
                      s12 = select_set pivot s11
                  in Inr (set_active pivot s12)))))"

definition ez_create_collection_execute :: "host_naming \<Rightarrow> string \<Rightarrow> scene \<Rightarrow> result" where
  "ez_create_collection_execute host_name collection_suffix s =
     (let objs = selected_objects s in
      if objs = [] then cancel ERROR Select_at_least_one_object s
      else
        (let suffix = strip collection_suffix in
         if suffix = [] then cancel ERROR Collection_name_empty s
         else
           (let base_name = ''COL_'' @ suffix;
                existing_names = map col_name (collections s);
                collection_name = generate_unique_name base_name existing_names
            in case collections_new host_name collection_name s of
                 (col_n, s1) \<Rightarrow>
                   (let col = Data_Collection col_n;
                        s2 = update_collection col (\<lambda>c. c\<lparr>col_color_tag := ''COLOR_02''\<rparr>) s1
                    in finish [(INFO, Collection_created collection_name)]
                         (and_then (children_link Scene_Collection col s2)
                            (create_fill host_name collection_name col objs))))))"

text \<open>\<^verbatim>\<open>OBJECT_OT_ez_add_to_collection.execute\<close>\<close>

definition add_one :: "collection_ref \<Rightarrow> name \<Rightarrow> scene \<Rightarrow> scene + scene" where
  "add_one col obj s =
     (if obj \<notin> set (objects_of s col) then
        objects_link col obj
          (fold (\<lambda>parent_col sx. if parent_col \<noteq> col then objects_unlink parent_col obj sx else sx)
             (users_collection s obj) s)
      else Inr s)"

definition ez_add_to_collection_execute :: "scene \<Rightarrow> result" where
  "ez_add_to_collection_execute s =
     (case active_layer_collection s of
        None \<Rightarrow> cancel ERROR Not_an_ezcollection s
      | Some col \<Rightarrow>
          if \<not> is_ez s col then cancel ERROR Not_an_ezcollection s
          else
            (case get_collection_pivot s col of
               None \<Rightarrow> cancel ERROR Pivot_not_found s
             | Some pivot \<Rightarrow>
                 (let selected = filter (\<lambda>obj. obj \<noteq> ob_name pivot) (selected_objects s) in
                  if selected = [] then cancel WARNING No_valid_objects_selected s
                  else
                    finish [(INFO, Objects_added (length selected) (name_of s col))]
                      (and_then (for_each (add_one col) selected s) (\<lambda>s1.
                         Inr (snd (preserve_parent_hierarchy selected (ob_name pivot) s1)))))))"

text \<open>\<^verbatim>\<open>OBJECT_OT_ez_remove_from_collection.execute\<close>\<close>

definition remove_one :: "collection_ref \<Rightarrow> name \<Rightarrow> scene \<Rightarrow> scene + scene" where
  "remove_one col obj s =
     (let s1 = parent_clear (set_active obj (select_set obj (select_all_deselect s)));
          s2 = (if obj \<in> set (objects_of s1 col) then objects_unlink col obj s1 else s1)
      in if obj \<notin> set (objects_of s2 Scene_Collection)
         then objects_link Scene_Collection obj s2
         else Inr s2)"

definition ez_remove_from_collection_execute :: "scene \<Rightarrow> result" where
  "ez_remove_from_collection_execute s =
     (case active_layer_collection s of
        None \<Rightarrow> cancel ERROR Not_an_ezcollection s
      | Some col \<Rightarrow>
          if \<not> is_ez s col then cancel ERROR Not_an_ezcollection s
          else
            (let pivot = get_collection_pivot s col;
                 selected = filter (\<lambda>obj. Some obj \<noteq> map_option ob_name pivot) (selected_objects s)
             in if selected = [] then cancel WARNING No_valid_objects_selected s
                else
                  finish [(INFO, Objects_removed (length selected) (name_of s col))]
                    (for_each (remove_one col) selected s)))"

text \<open>\<^verbatim>\<open>OBJECT_OT_ez_pivot_unlock.execute\<close> and \<^verbatim>\<open>OBJECT_OT_ez_pivot_lock.execute\<close>\<close>

definition ez_pivot_unlock_execute :: "scene \<Rightarrow> result" where
  "ez_pivot_unlock_execute s =
     (case active_layer_collection s of
        None \<Rightarrow> cancel ERROR Not_an_ezcollection s
      | Some alc \<Rightarrow>
          if \<not> is_ez s alc then cancel ERROR Not_an_ezcollection s
          else
            (case get_collection_pivot s alc of
               None \<Rightarrow> cancel ERROR Pivot_not_found s
             | Some pivot \<Rightarrow>
                 (let children = filter (\<lambda>obj. parent_of s obj = Some (ob_name pivot)) (objects_of s alc);
                      s1 = select_all_deselect s;
                      s2 = fold select_set children s1;
                      s3 = (case children of
                              [] \<Rightarrow> s2
                            | child # _ \<Rightarrow> parent_clear (set_active child s2));
                      s4 = select_all_deselect s3;
                      s5 = select_set (ob_name pivot) s4
                  in (Finished, [(INFO, Pivot_unlocked (ob_name pivot))],
                      set_active (ob_name pivot) s5))))"

definition ez_pivot_lock_execute :: "scene \<Rightarrow> result" where
  "ez_pivot_lock_execute s =
     (case active_layer_collection s of
        None \<Rightarrow> cancel ERROR Not_an_ezcollection s
      | Some alc \<Rightarrow>
          if \<not> is_ez s alc then cancel ERROR Not_an_ezcollection s
          else
            (case get_collection_pivot s alc of
               None \<Rightarrow> cancel ERROR Pivot_not_found s
             | Some pivot \<Rightarrow>
                 (let collection_objects =
                        filter (\<lambda>obj. obj \<noteq> ob_name pivot) (objects_of s alc)
                  in (Finished, [(INFO, Pivot_locked (ob_name pivot))],
                      snd (preserve_parent_hierarchy collection_objects (ob_name pivot) s)))))"

text \<open>
  \<^verbatim>\<open>OBJECT_OT_ez_toggle_solo_collection.execute\<close>. The backup is the dictionary
  \<^verbatim>\<open>{c.name: c.hide_viewport for c in bpy.data.collections}\<close>, kept as the list of
  its items.
\<close>

definition restore_one :: "name \<times> bool \<Rightarrow> scene \<Rightarrow> scene" where
  "restore_one item s =
     (case item of
        (n, was_hidden) \<Rightarrow>
          (case get_collection s n of
             None \<Rightarrow> s
           | Some c \<Rightarrow>
               update_collection (Data_Collection (col_name c))
                 (\<lambda>c'. c'\<lparr>col_hide_viewport := was_hidden\<rparr>) s))"

definition ez_toggle_solo_collection_execute :: "scene \<Rightarrow> result" where
  "ez_toggle_solo_collection_execute s =
     (case active_layer_collection s of
        None \<Rightarrow> cancel ERROR Not_an_ezcollection s
      | Some col \<Rightarrow>
          if \<not> is_ez s col then cancel ERROR Not_an_ezcollection s
          else
            (case solo_backup s of
               None \<Rightarrow>
                 (let backup = map (\<lambda>c. (col_name c, col_hide_viewport c)) (collections s);
                      s1 = s\<lparr>solo_backup := Some backup\<rparr>;
                      s2 = s1\<lparr>collections :=
                                map (\<lambda>c. set_visibility c (Data_Collection (col_name c) = col))
                                  (collections s1)\<rparr>
                  in (Finished, [(INFO, Solo_on (name_of s col))], s2))
             | Some backup \<Rightarrow>
                 (let s1 = fold restore_one backup s
                  in (Finished, [(INFO, Solo_off)], s1\<lparr>solo_backup := None\<rparr>))))"

text \<open>\<^verbatim>\<open>OBJECT_OT_ez_merge_collections.execute\<close>\<close>

definition selected_ez_collections :: "scene \<Rightarrow> collection_ref list" where
  "selected_ez_collections s =
     (let selected_collections =
            fold (\<lambda>obj acc.
                    fold (\<lambda>col acc'. if is_ez s col \<and> col \<notin> set acc' then acc' @ [col] else acc')
                      (users_collection s obj) acc)
              (selected_objects s) []
      in if selected_collections = [] then
           (case active_layer_collection s of
              None \<Rightarrow> []
            | Some alc \<Rightarrow> if is_ez s alc then [alc] else [])
         else selected_collections)"

definition merge_one :: "collection_ref \<Rightarrow> name \<Rightarrow> collection_ref \<Rightarrow> scene \<Rightarrow> scene + scene" where
  "merge_one parent_col parent_pivot col s =
     (let s1 = (if name_of s col \<in> set (children_of s Scene_Collection)
                then children_unlink Scene_Collection col s else s)
      in and_then (children_link parent_col col s1) (\<lambda>s2.
           (case get_collection_pivot s2 col of
              None \<Rightarrow> Inr s2
            | Some child_pivot \<Rightarrow>
                Inr (parent_set (set_active parent_pivot
                       (select_set (ob_name child_pivot)
                          (select_set parent_pivot (select_all_deselect s2))))))))"

text \<open>
  The second half of \<^verbatim>\<open>execute\<close>, from the centre of the pivots that were
  found to the selection of the new parent pivot.
\<close>

definition merge_into ::
  "host_naming \<Rightarrow> name \<Rightarrow> collection_ref \<Rightarrow> collection_ref list \<Rightarrow> vector list \<Rightarrow> scene
     \<Rightarrow> scene + scene" where
  "merge_into host_name parent_collection_name parent_col selected_collections pivot_locations s3 =
     (let parent_center = vector_mean pivot_locations
      in case create_smart_pivot host_name parent_collection_name parent_center True s3 of
           (parent_pivot, s4) \<Rightarrow>
             and_then (objects_link parent_col parent_pivot s4) (\<lambda>s5.
             and_then (for_each (merge_one parent_col parent_pivot) selected_collections s5) (\<lambda>s6.
               (let s7 = update_collection parent_col
                           (\<lambda>c. c\<lparr>col_ez_pivot := Some parent_pivot\<rparr>) s6;
                    s8 = hide_all_pivots s7;
                    s9 = set_hide_viewport parent_pivot False s8;
                    s10 = select_all_deselect s9;
                    s11 = select_set parent_pivot s10
                in Inr (set_active parent_pivot s11)))))"

definition ez_merge_collections_execute :: "host_naming \<Rightarrow> string \<Rightarrow> scene \<Rightarrow> result" where
  "ez_merge_collections_execute host_name parent_collection_name_prop s =
     (let selected_collections = selected_ez_collections s in
      if length selected_collections < 2 then cancel ERROR Select_two_ezcollections s
      else
        (let parent_name = strip parent_collection_name_prop in
         if parent_name = [] then cancel ERROR Parent_name_empty s
         else
           (let base_name = ''COL_'' @ parent_name;
                existing_names = map col_name (collections s);
                parent_collection_name = generate_unique_name base_name existing_names
            in case collections_new host_name parent_collection_name s of
                 (parent_n, s1) \<Rightarrow>
                   (let parent_col = Data_Collection parent_n;
                        s2 = update_collection parent_col (\<lambda>c. c\<lparr>col_color_tag := ''COLOR_01''\<rparr>) s1
                    in case children_link Scene_Collection parent_col s2 of
                         Inl e \<Rightarrow> (Raised, [], e)
                       | Inr s3 \<Rightarrow>
                           (let pivot_locations =
                                  map ob_world
                                    (List.map_filter (get_collection_pivot s3) selected_collections)
                            in if pivot_locations = [] then cancel ERROR No_valid_pivots s3
                               else
                                 finish
                                   [(INFO, Merged (length selected_collections)
                                             parent_collection_name)]
                                   (merge_into host_name parent_collection_name parent_col
                                      selected_collections pivot_locations s3))))))"

text \<open>\<^verbatim>\<open>OBJECT_OT_ez_unmerge_collections.execute\<close>\<close>

definition unmerge_one :: "collection_ref \<Rightarrow> collection_ref \<Rightarrow> scene \<Rightarrow> scene + scene" where
  "unmerge_one parent_col col s =
     (let s1 = (case get_collection_pivot s col of
                  None \<Rightarrow> s
                | Some child_pivot \<Rightarrow>
                    if ob_parent child_pivot \<noteq> None
                    then parent_clear (set_active (ob_name child_pivot)
                           (select_set (ob_name child_pivot) (select_all_deselect s)))
                    else s)
      in children_link Scene_Collection col (children_unlink parent_col col s1))"

definition ez_unmerge_collections_execute :: "scene \<Rightarrow> result" where
  "ez_unmerge_collections_execute s =
     (case active_layer_collection s of
        None \<Rightarrow> cancel ERROR Not_an_ezcollection s
      | Some parent_col \<Rightarrow>
          if \<not> is_ez s parent_col then cancel ERROR Not_an_ezcollection s
          else
            (let child_collections =
                   filter (is_ez s) (map Data_Collection (children_of s parent_col))
             in if child_collections = [] then cancel WARNING No_child_ezcollections s
                else
                  finish [(INFO, Unmerged (length child_collections) (name_of s parent_col))]
                    (for_each (unmerge_one parent_col) child_collections s)))"

text \<open>All operators of the pie menu and the outliner, as one instruction set.\<close>

datatype operator =
    Select_collection
  | Create_collection string
  | Add_to_collection
  | Remove_from_collection
  | Pivot_unlock
  | Pivot_lock
  | Toggle_solo
  | Merge_collections string
  | Unmerge_collections

fun execute :: "host_naming \<Rightarrow> operator \<Rightarrow> scene \<Rightarrow> result" where
  "execute host_name Select_collection s = ez_select_collection_execute s"
| "execute host_name (Create_collection collection_suffix) s =
     ez_create_collection_execute host_name collection_suffix s"
| "execute host_name Add_to_collection s = ez_add_to_collection_execute s"
| "execute host_name Remove_from_collection s = ez_remove_from_collection_execute s"
| "execute host_name Pivot_unlock s = ez_pivot_unlock_execute s"
| "execute host_name Pivot_lock s = ez_pivot_lock_execute s"
| "execute host_name Toggle_solo s = ez_toggle_solo_collection_execute s"
| "execute host_name (Merge_collections parent_name) s =
     ez_merge_collections_execute host_name parent_name s"
| "execute host_name Unmerge_collections s = ez_unmerge_collections_execute s"

subsection \<open>Well-formed hosts and the operators' preconditions\<close>


text \<open>
  The conditions under which the operators give up. \<open>claimed_unmet\<close> is the list of
  the specification (create with an empty selection or a blank name; add, remove,
  solo, lock, unlock and unmerge with no active EZCollection; add and remove with no
  valid selected object; merge with fewer than two selected EZCollections).
  \<open>precondition_unmet\<close> is the full list of guards.
\<close>

definition no_active_ezcollection :: "scene \<Rightarrow> bool" where
  "no_active_ezcollection s =
     (case active_layer_collection s of None \<Rightarrow> True | Some alc \<Rightarrow> \<not> is_ez s alc)"

definition active_pivot :: "scene \<Rightarrow> object option" where
  "active_pivot s =
     (case active_layer_collection s of None \<Rightarrow> None | Some alc \<Rightarrow> get_collection_pivot s alc)"

definition valid_selected :: "scene \<Rightarrow> name list" where
  "valid_selected s =
     filter (\<lambda>obj. Some obj \<noteq> map_option ob_name (active_pivot s)) (selected_objects s)"

fun claimed_unmet :: "operator \<Rightarrow> scene \<Rightarrow> bool" where
  "claimed_unmet Select_collection s = False"
| "claimed_unmet (Create_collection collection_suffix) s =
     (selected_objects s = [] \<or> strip collection_suffix = [])"
| "claimed_unmet Add_to_collection s = (no_active_ezcollection s \<or> valid_selected s = [])"
| "claimed_unmet Remove_from_collection s = (no_active_ezcollection s \<or> valid_selected s = [])"
| "claimed_unmet Pivot_unlock s = no_active_ezcollection s"
| "claimed_unmet Pivot_lock s = no_active_ezcollection s"
| "claimed_unmet Toggle_solo s = no_active_ezcollection s"
| "claimed_unmet (Merge_collections parent_name) s = (length (selected_ez_collections s) < 2)"
| "claimed_unmet Unmerge_collections s = no_active_ezcollection s"

fun precondition_unmet :: "operator \<Rightarrow> scene \<Rightarrow> bool" where
  "precondition_unmet Select_collection s = (active_layer_collection s = None)"
| "precondition_unmet (Create_collection collection_suffix) s =
     (selected_objects s = [] \<or> strip collection_suffix = [])"
| "precondition_unmet Add_to_collection s =
     (no_active_ezcollection s \<or> active_pivot s = None \<or> valid_selected s = [])"
| "precondition_unmet Remove_from_collection s =
     (no_active_ezcollection s \<or> valid_selected s = [])"
| "precondition_unmet Pivot_unlock s = (no_active_ezcollection s \<or> active_pivot s = None)"
| "precondition_unmet Pivot_lock s = (no_active_ezcollection s \<or> active_pivot s = None)"
| "precondition_unmet Toggle_solo s = no_active_ezcollection s"
| "precondition_unmet (Merge_collections parent_name) s =
     (length (selected_ez_collections s) < 2 \<or> strip parent_name = [] \<or>
      list_all (\<lambda>col. get_collection_pivot s col = None) (selected_ez_collections s))"
| "precondition_unmet Unmerge_collections s =
     (no_active_ezcollection s \<or>
      (case active_layer_collection s of
         None \<Rightarrow> True
       | Some alc \<Rightarrow> list_all (\<lambda>n. \<not> is_ez s (Data_Collection n)) (children_of s alc)))"


subsection \<open>Pivot tags and live objects\<close>

text \<open>
  A collection's \<^verbatim>\<open>ez_pivot\<close> tag references a live object when
  \<^verbatim>\<open>bpy.data.objects.get\<close> finds the name. \<open>all_tags\<close> are the tags of the scene's
  root collection and of \<^verbatim>\<open>bpy.data.collections\<close>; \<open>footprint\<close> is what the
  invariant reads of a scene, and \<open>grows\<close> relates a scene to a later one in which
  no object is gone and every new tag names an object. \<open>after\<close> is the scene a
  call leaves, whether it raised or not.
\<close>

definition ob_names :: "scene \<Rightarrow> name list" where
  "ob_names s = map ob_name (objects s)"

definition all_tags :: "scene \<Rightarrow> name list" where
  "all_tags s = List.map_filter col_ez_pivot (scene_collection s # collections s)"

definition pivot_tags_live :: "scene \<Rightarrow> bool" where
  "pivot_tags_live s = list_all (\<lambda>n. get_object s n \<noteq> None) (all_tags s)"

definition after :: "scene + scene \<Rightarrow> scene" where
  "after r = (case r of Inl e \<Rightarrow> e | Inr s \<Rightarrow> s)"

definition grows :: "scene \<Rightarrow> scene \<Rightarrow> bool" where
  "grows s s' \<longleftrightarrow>
     set (ob_names s) \<subseteq> set (ob_names s') \<and>
     set (all_tags s') \<subseteq> set (all_tags s) \<union> set (ob_names s')"

definition footprint :: "scene \<Rightarrow> name list \<times> name list" where
  "footprint s = (ob_names s, all_tags s)"

subsection \<open>Ancestors of a collection\<close>

text \<open>
  The collection-parent relation of \<^verbatim>\<open>bpy.data.collections\<close>, as the list of its
  (child, parent) pairs.
\<close>

definition parent_pairs :: "collection list \<Rightarrow> (collection_ref \<times> collection_ref) list" where
  "parent_pairs cs =
     concat (map (\<lambda>p. map (\<lambda>n. (Data_Collection n, Data_Collection (col_name p))) (col_children p)) cs)"

text \<open>
  The hierarchy the specification and the docstring speak of: every EZCollection
  reached from an EZCollection that holds the object through any chain of parents,
  plain collections included.
\<close>

definition claimed_hierarchy :: "scene \<Rightarrow> name \<Rightarrow> collection_ref set" where
  "claimed_hierarchy s obj =
     {a. is_ez s a \<and>
         (\<exists>c \<in> set (users_collection s obj).
            is_ez s c \<and> (c, a) \<in> (set (parent_pairs (collections s)))\<^sup>*)}"

text \<open>A rank for the collections of an example, read from a table.\<close>

definition rank_of :: "(name \<times> nat) list \<Rightarrow> collection_ref \<Rightarrow> nat" where
  "rank_of table r =
     (case r of
        Scene_Collection \<Rightarrow> 0
      | Data_Collection n \<Rightarrow> (case map_of table n of None \<Rightarrow> 0 | Some k \<Rightarrow> k))"

subsection \<open>Example scenes\<close>

text \<open>
  Small scenes on which the theorems below are instantiated. \<open>host_keeps\<close> is the
  host's naming where the requested name is free: the datablock gets it.
\<close>

definition example_collection ::
  "name \<Rightarrow> name option \<Rightarrow> name list \<Rightarrow> name list \<Rightarrow> collection" where
  "example_collection n pivot children obs =
     (new_collection n)\<lparr>col_ez_pivot := pivot, col_children := children, col_objects := obs\<rparr>"

definition example_object :: "name \<Rightarrow> bool \<Rightarrow> object" where
  "example_object n sel = (new_object n)\<lparr>ob_selected := sel\<rparr>"

definition example_scene ::
  "collection list \<Rightarrow> object list \<Rightarrow> name list \<Rightarrow> collection_ref option \<Rightarrow> scene" where
  "example_scene cs obs roots alc =
     \<lparr>collections = cs, objects = obs,
      scene_collection = example_collection ''Scene Collection'' None roots [],
      solo_backup = None, active_layer_collection = alc, active_object = None,
      last_selected = {}\<rparr>"

definition host_keeps :: host_naming where
  "host_keeps n names = n"

text \<open>
  An EZCollection \<^verbatim>\<open>COL_A\<close> with its pivot and a cube, beside a plain collection
  \<^verbatim>\<open>COL_B\<close>; \<^verbatim>\<open>COL_A\<close> is active and nothing is hidden.
\<close>

definition solo_scene :: scene where
  "solo_scene =
     example_scene
       [example_collection ''COL_A'' (Some ''Pivot_COL_A'') [] [''Cube'', ''Pivot_COL_A''],
        example_collection ''COL_B'' None [] [''Ball'']]
       [example_object ''Cube'' False, example_object ''Pivot_COL_A'' False,
        example_object ''Ball'' False]
       [''COL_A'', ''COL_B''] (Some (Data_Collection ''COL_A''))"

text \<open>
  Two EZCollections whose pivot objects the user has deleted (the tags stay behind),
  with one selected object in each.
\<close>

definition orphan_scene :: scene where
  "orphan_scene =
     example_scene
       [example_collection ''COL_A'' (Some ''Pivot_COL_A'') [] [''Cube''],
        example_collection ''COL_B'' (Some ''Pivot_COL_B'') [] [''Ball'']]
       [example_object ''Cube'' True, example_object ''Ball'' True]
       [''COL_A'', ''COL_B''] (Some (Data_Collection ''COL_A''))"

text \<open>
  Two EZCollections with their pivots, and one selected object in each.
\<close>

definition studio_scene :: scene where
  "studio_scene =
     example_scene
       [example_collection ''COL_A'' (Some ''Pivot_COL_A'') [] [''Cube'', ''Pivot_COL_A''],
        example_collection ''COL_B'' (Some ''Pivot_COL_B'') [] [''Ball'', ''Pivot_COL_B'']]
       [example_object ''Cube'' True, example_object ''Pivot_COL_A'' False,
        example_object ''Ball'' True, example_object ''Pivot_COL_B'' False]
       [''COL_A'', ''COL_B''] (Some (Data_Collection ''COL_A''))"

text \<open>
  \<open>nested_scene\<close>: the EZCollection \<^verbatim>\<open>COL_A\<close> (holding the cube) lies in the plain
  collection \<^verbatim>\<open>Group\<close>, which lies in the EZCollection \<^verbatim>\<open>COL_Top\<close>.
  \<open>merged_scene\<close>: what merging \<^verbatim>\<open>COL_A\<close> and \<^verbatim>\<open>COL_B\<close> leaves, both under
  the EZCollection \<^verbatim>\<open>COL_Group\<close>; the cube is selected.
\<close>

definition nested_scene :: scene where
  "nested_scene =
     example_scene
       [example_collection ''COL_A'' (Some ''Pivot_COL_A'') [] [''Cube'', ''Pivot_COL_A''],
        example_collection ''Group'' None [''COL_A''] [],
        example_collection ''COL_Top'' (Some ''Pivot_COL_Top'') [''Group''] [''Pivot_COL_Top'']]
       [example_object ''Cube'' True, example_object ''Pivot_COL_A'' False,
        example_object ''Pivot_COL_Top'' False]
       [''COL_Top''] (Some (Data_Collection ''COL_A''))"

definition merged_scene :: scene where
  "merged_scene =
     example_scene
       [example_collection ''COL_A'' (Some ''Pivot_COL_A'') [] [''Cube'', ''Pivot_COL_A''],
        example_collection ''COL_B'' (Some ''Pivot_COL_B'') [] [''Ball'', ''Pivot_COL_B''],
        example_collection ''COL_Group'' (Some ''Pivot_COL_Group'') [''COL_A'', ''COL_B'']
          [''Pivot_COL_Group'']]
       [example_object ''Cube'' True, example_object ''Pivot_COL_A'' False,
        example_object ''Ball'' False, example_object ''Pivot_COL_B'' False,
        example_object ''Pivot_COL_Group'' False]
       [''COL_Group''] (Some (Data_Collection ''COL_A''))"

lemmas example_defs =
  example_collection_def example_object_def example_scene_def new_collection_def
  new_object_def host_keeps_def

subsection \<open>The two uniquifications agree\<close>

lemma prefix_numbered: "prefix base (numbered base i)"
  by (simp add: numbered_def)

lemma old_loop_eq_new_loop:
  "prefix base name \<Longrightarrow>
   old_unique_name_loop base (filter (prefix base) names) name i =
   generate_unique_name_loop base names name i"
proof (induction base names name i rule: generate_unique_name_loop.induct)
  case (1 base names name i)
  show ?case
  proof (cases "name \<in> set names")
    case True
    with "1.prems" have "name \<in> set (filter (prefix base) names)" by simp
    then have "old_unique_name_loop base (filter (prefix base) names) name i =
        old_unique_name_loop base (filter (prefix base) names) (numbered base i) (Suc i)"
      by (subst old_unique_name_loop.simps) simp
    also have "\<dots> = generate_unique_name_loop base names (numbered base i) (Suc i)"
      using True by (rule "1.IH") (rule prefix_numbered)
    also have "\<dots> = generate_unique_name_loop base names name i"
      using True by (subst (2) generate_unique_name_loop.simps) simp
    finally show ?thesis .
  next
    case False
    then have "old_unique_name_loop base (filter (prefix base) names) name i = name"
      by (subst old_unique_name_loop.simps) simp
    moreover have "generate_unique_name_loop base names name i = name"
      using False by (subst generate_unique_name_loop.simps) simp
    ultimately show ?thesis by simp
  qed
qed

text \<open>
  C10. The uniquification of version 1.2, which first narrows the existing collection
  names to those starting with the base name, and \<^verbatim>\<open>generate_unique_name\<close>
  of version 2.4, which tests against all of them, return the same name for every base
  name and every list of existing names. Both loops are total functions: their
  termination is proved where they are defined, by the measure \<^const>\<open>pending\<close>.
\<close>

theorem old_unique_name_eq_generate_unique_name:
  "old_unique_name base names = generate_unique_name base names"
  unfolding old_unique_name_def generate_unique_name_def
  by (rule old_loop_eq_new_loop) simp

subsection \<open>The selection timer leaves an unchanged selection alone\<close>

text \<open>
  C7. When the names of the selected objects are the set recorded at the previous
  poll, the timer returns the scene as it found it: no visibility flag and nothing
  else has changed.
\<close>

theorem selection_timer_same_selection:
  "set (selected_objects s) = last_selected s \<Longrightarrow> selection_timer depth s = s"
  by (simp add: selection_timer_def)

theorem selection_timer_same_selection_witness:
  "set (selected_objects (orphan_scene\<lparr>last_selected := {''Cube'', ''Ball''}\<rparr>)) =
     last_selected (orphan_scene\<lparr>last_selected := {''Cube'', ''Ball''}\<rparr>) \<and>
   selection_timer 3 (orphan_scene\<lparr>last_selected := {''Cube'', ''Ball''}\<rparr>) =
     orphan_scene\<lparr>last_selected := {''Cube'', ''Ball''}\<rparr>"
proof -
  have h: "set (selected_objects (orphan_scene\<lparr>last_selected := {''Cube'', ''Ball''}\<rparr>)) =
      last_selected (orphan_scene\<lparr>last_selected := {''Cube'', ''Ball''}\<rparr>)"
    by (simp add: orphan_scene_def example_defs selected_objects_def)
  from selection_timer_same_selection [OF h, of 3] h show ?thesis by simp
qed

subsection \<open>Solo mode\<close>

lemma filter_name_unique:
  "distinct (map col_name cs) \<Longrightarrow> find (\<lambda>c. col_name c = n) cs = Some c0 \<Longrightarrow>
   filter (\<lambda>c. col_name c = n) cs = [c0]"
proof (induction cs)
  case Nil
  then show ?case by simp
next
  case (Cons c cs)
  show ?case
  proof (cases "col_name c = n")
    case True
    with Cons.prems have "c0 = c" and "n \<notin> col_name ` set cs" by auto
    then have "filter (\<lambda>c. col_name c = n) cs = []"
      by (auto simp: filter_empty_conv)
    with True \<open>c0 = c\<close> show ?thesis by simp
  next
    case False
    with Cons show ?thesis by simp
  qed
qed

text \<open>
  C3. Solo switched on with an active EZCollection of \<^verbatim>\<open>bpy.data.collections\<close> and
  no backup in the scene: the operator finishes, the collections of
  \<^verbatim>\<open>bpy.data.collections\<close> with a hide flag off are exactly the active one, with
  both its flags off, and every other collection has both flags on. Names are unique
  in the host.
\<close>

theorem solo_on_isolates:
  assumes alc: "active_layer_collection s = Some (Data_Collection n)"
    and ez: "is_ez s (Data_Collection n)"
    and off: "solo_backup s = None"
    and names: "distinct (map col_name (collections s))"
  shows "\<exists>c0. get_collection s n = Some c0 \<and>
           status (ez_toggle_solo_collection_execute s) = Finished \<and>
           filter (\<lambda>c. \<not> col_hide_viewport c \<or> \<not> col_hide_render c)
             (collections (scene_of (ez_toggle_solo_collection_execute s))) =
             [c0\<lparr>col_hide_viewport := False, col_hide_render := False\<rparr>] \<and>
           (\<forall>c \<in> set (collections (scene_of (ez_toggle_solo_collection_execute s))).
              col_name c \<noteq> n \<longrightarrow> col_hide_viewport c \<and> col_hide_render c)"
proof -
  from ez obtain c0 where c0: "get_collection s n = Some c0"
    by (auto simp: is_ez_def deref_def split: option.splits)
  let ?r = "ez_toggle_solo_collection_execute s"
  have run: "?r = (Finished, [(INFO, Solo_on (name_of s (Data_Collection n)))],
      s\<lparr>solo_backup := Some (map (\<lambda>c. (col_name c, col_hide_viewport c)) (collections s)),
        collections := map (\<lambda>c. set_visibility c (col_name c = n)) (collections s)\<rparr>)"
    using alc ez off by (simp add: ez_toggle_solo_collection_execute_def Let_def)
  have vis: "filter (\<lambda>c. \<not> col_hide_viewport c \<or> \<not> col_hide_render c)
        (map (\<lambda>c. set_visibility c (col_name c = n)) (collections s)) =
      map (\<lambda>c. set_visibility c (col_name c = n)) (filter (\<lambda>c. col_name c = n) (collections s))"
    by (simp add: filter_map o_def set_visibility_def)
  have one: "filter (\<lambda>c. col_name c = n) (collections s) = [c0]"
    using names c0 by (intro filter_name_unique) (simp_all add: get_collection_def)
  have "col_name c0 = n"
    using c0 by (auto simp: get_collection_def find_Some_iff)
  have cols: "collections (scene_of ?r) =
      map (\<lambda>c. set_visibility c (col_name c = n)) (collections s)"
    by (simp add: run scene_of_def)
  have "filter (\<lambda>c. \<not> col_hide_viewport c \<or> \<not> col_hide_render c) (collections (scene_of ?r)) =
      [set_visibility c0 (col_name c0 = n)]"
    by (simp only: cols vis one list.map)
  then have shown: "filter (\<lambda>c. \<not> col_hide_viewport c \<or> \<not> col_hide_render c)
      (collections (scene_of ?r)) = [c0\<lparr>col_hide_viewport := False, col_hide_render := False\<rparr>]"
    using \<open>col_name c0 = n\<close> by (simp only: set_visibility_def simp_thms)
  have hidden: "\<forall>c \<in> set (collections (scene_of ?r)).
      col_name c \<noteq> n \<longrightarrow> col_hide_viewport c \<and> col_hide_render c"
    by (auto simp: cols set_visibility_def)
  have "status ?r = Finished"
    by (simp add: run status_def)
  with c0 shown hidden show ?thesis by blast
qed

theorem solo_on_isolates_witness:
  "active_layer_collection solo_scene = Some (Data_Collection ''COL_A'') \<and>
   is_ez solo_scene (Data_Collection ''COL_A'') \<and>
   solo_backup solo_scene = None \<and>
   distinct (map col_name (collections solo_scene)) \<and>
   (\<exists>c0. get_collection solo_scene ''COL_A'' = Some c0 \<and>
      status (ez_toggle_solo_collection_execute solo_scene) = Finished \<and>
      filter (\<lambda>c. \<not> col_hide_viewport c \<or> \<not> col_hide_render c)
        (collections (scene_of (ez_toggle_solo_collection_execute solo_scene))) =
        [c0\<lparr>col_hide_viewport := False, col_hide_render := False\<rparr>] \<and>
      (\<forall>c \<in> set (collections (scene_of (ez_toggle_solo_collection_execute solo_scene))).
         col_name c \<noteq> ''COL_A'' \<longrightarrow> col_hide_viewport c \<and> col_hide_render c))"
proof -
  have h1: "active_layer_collection solo_scene = Some (Data_Collection ''COL_A'')"
    by (simp add: solo_scene_def example_defs)
  have h2: "is_ez solo_scene (Data_Collection ''COL_A'')"
    by (simp add: solo_scene_def example_defs is_ez_def deref_def get_collection_def
        is_ez_collection_def)
  have h3: "solo_backup solo_scene = None"
    by (simp add: solo_scene_def example_defs)
  have h4: "distinct (map col_name (collections solo_scene))"
    by (simp add: solo_scene_def example_defs)
  from solo_on_isolates [OF h1 h2 h3 h4] h1 h2 h3 h4 show ?thesis by blast
qed

text \<open>
  C2, on \<open>solo_scene\<close>: solo on and then solo off both finish, and the viewport
  flags are back (\<open>[False, False]\<close>), but the render flag of \<^verbatim>\<open>COL_B\<close>, off before,
  stays on: the backup holds \<^verbatim>\<open>hide_viewport\<close> only, while
  \<^verbatim>\<open>set_visibility\<close> writes both flags.
\<close>

theorem solo_off_leaves_render_hidden:
  "map col_hide_render (collections solo_scene) = [False, False] \<and>
   status (ez_toggle_solo_collection_execute solo_scene) = Finished \<and>
   status (ez_toggle_solo_collection_execute
             (scene_of (ez_toggle_solo_collection_execute solo_scene))) = Finished \<and>
   map col_hide_render
     (collections (scene_of (ez_toggle_solo_collection_execute
        (scene_of (ez_toggle_solo_collection_execute solo_scene))))) = [False, True] \<and>
   map col_hide_viewport
     (collections (scene_of (ez_toggle_solo_collection_execute
        (scene_of (ez_toggle_solo_collection_execute solo_scene))))) = [False, False] \<and>
   solo_backup (scene_of (ez_toggle_solo_collection_execute
        (scene_of (ez_toggle_solo_collection_execute solo_scene)))) = None"
  by (simp add: solo_scene_def example_defs ez_toggle_solo_collection_execute_def is_ez_def
      deref_def get_collection_def is_ez_collection_def status_def scene_of_def
      set_visibility_def restore_one_def update_collection_def name_of_def cancel_def)

subsection \<open>A cancelled merge\<close>

lemma generate_unique_name_free:
  "base_name \<notin> set existing_names \<Longrightarrow> generate_unique_name base_name existing_names = base_name"
  unfolding generate_unique_name_def by (subst generate_unique_name_loop.simps) simp

lemma strip_Group: "strip ''Group'' = ''Group''"
  by (simp add: strip_def is_space_def)

text \<open>
  C1, on \<open>orphan_scene\<close>: merging under the name \<^verbatim>\<open>Group\<close> passes the two early
  checks, makes the collection \<^verbatim>\<open>COL_Group\<close> and links it under the scene's root
  collection, finds no pivot and returns \<^verbatim>\<open>CANCELLED\<close>: the scene it leaves has the
  new collection.
\<close>

theorem merge_cancelled_after_creating:
  "ez_merge_collections_execute host_keeps ''Group'' orphan_scene =
     (Cancelled, [(ERROR, No_valid_pivots)],
      orphan_scene
        \<lparr>collections := collections orphan_scene @
           [(new_collection ''COL_Group'')\<lparr>col_color_tag := ''COLOR_01''\<rparr>],
         scene_collection := (scene_collection orphan_scene)
           \<lparr>col_children := [''COL_A'', ''COL_B'', ''COL_Group'']\<rparr>\<rparr>)"
  by (simp add: orphan_scene_def example_defs ez_merge_collections_execute_def
      selected_ez_collections_def selected_objects_def users_collection_def is_ez_def deref_def
      get_collection_def is_ez_collection_def strip_Group generate_unique_name_free
      collections_new_def update_collection_def children_link_def children_of_def
      get_collection_pivot_def get_object_def List.map_filter_def cancel_def Let_def)

subsection \<open>When an operator cancels\<close>

text \<open>
  A name is blank, for create and merge, when \<^verbatim>\<open>strip()\<close> leaves nothing of it:
  when it is made of space characters only, the no-break space among them.
\<close>

lemma strip_blank: "strip t = [] \<longleftrightarrow> list_all is_space t"
proof (cases "dropWhile is_space t")
  case Nil
  then have "list_all is_space t"
    by (simp add: dropWhile_eq_Nil_conv list_all_iff)
  moreover have "strip t = []"
    unfolding strip_def Nil by simp
  ultimately show ?thesis
    by simp
next
  case (Cons c cs)
  then have "\<not> is_space c"
    using hd_dropWhile [of is_space t] by simp
  moreover from Cons have "\<not> list_all is_space t"
    using dropWhile_eq_Nil_conv [of is_space t] by (simp add: list_all_iff)
  ultimately show ?thesis
    using Cons by (auto simp: strip_def dropWhile_eq_Nil_conv)
qed

lemma strip_examples:
  "strip [CHR 0xA0] = []"
  "strip [CHR 0x85, CHR 0x20, CHR 0x09] = []"
  "strip ''  Props '' = ''Props''"
  "strip ''a b'' = ''a b''"
  by (simp_all add: strip_def is_space_def)







lemma not_cancelled_finished [simp]: "status (Finished, rs, s) \<noteq> Cancelled"
  by (simp add: status_def)





















lemma status_raised [simp]: "status (Raised, rs, s) \<noteq> Cancelled"
  by (simp add: status_def)



lemma claimed_unmet_is_unmet: "claimed_unmet op s \<Longrightarrow> precondition_unmet op s"
  by (cases op) auto




subsection \<open>The pivot tags stay live\<close>

lemma get_object_None: "get_object s n = None \<longleftrightarrow> n \<notin> set (ob_names s)"
  by (auto simp: get_object_def ob_names_def find_None_iff)

lemma pivot_tags_live_iff: "pivot_tags_live s \<longleftrightarrow> set (all_tags s) \<subseteq> set (ob_names s)"
  by (auto simp: pivot_tags_live_def list_all_iff get_object_None simp del: not_None_eq)

lemma scene_of_finish: "scene_of (finish rs r) = after r"
  by (cases r) (simp_all add: finish_def scene_of_def after_def)

lemma scene_of_cancel: "scene_of (cancel l m s) = s"
  by (simp add: cancel_def scene_of_def)

lemma after_simps [simp]: "after (Inl e) = e" "after (Inr s) = s"
  by (simp_all add: after_def)

lemma map_filter_update:
  "(\<And>c. g (f c) = g c) \<Longrightarrow>
   List.map_filter g (map (\<lambda>c. if P c then f c else c) cs) = List.map_filter g cs"
  by (induction cs) (simp_all add: List.map_filter_def)

lemma ob_names_update_object:
  "(\<And>ob. ob_name (f ob) = ob_name ob) \<Longrightarrow> ob_names (update_object n f s) = ob_names s"
  by (simp add: ob_names_def update_object_def)

lemma all_tags_update_object: "all_tags (update_object n f s) = all_tags s"
  by (simp add: all_tags_def update_object_def)

lemma ob_names_update_collection: "ob_names (update_collection r f s) = ob_names s"
  by (cases r) (simp_all add: ob_names_def update_collection_def)

lemma all_tags_update_collection:
  "(\<And>c. col_ez_pivot (f c) = col_ez_pivot c) \<Longrightarrow> all_tags (update_collection r f s) = all_tags s"
proof -
  assume same: "\<And>c. col_ez_pivot (f c) = col_ez_pivot c"
  show ?thesis
  proof (cases r)
    case Scene_Collection
    then show ?thesis
      by (simp add: all_tags_def update_collection_def List.map_filter_def same)
  next
    case (Data_Collection n)
    have "List.map_filter col_ez_pivot (map (\<lambda>c. if col_name c = n then f c else c) (collections s)) =
        List.map_filter col_ez_pivot (collections s)"
      by (rule map_filter_update) (rule same)
    then show ?thesis
      using Data_Collection
      by (simp add: all_tags_def update_collection_def List.map_filter_def)
  qed
qed

lemma frame_select_all_deselect:
  "ob_names (select_all_deselect s) = ob_names s" "all_tags (select_all_deselect s) = all_tags s"
  by (simp_all add: select_all_deselect_def ob_names_def all_tags_def)

lemma frame_select_set:
  "ob_names (select_set n s) = ob_names s" "all_tags (select_set n s) = all_tags s"
  by (simp_all add: select_set_def ob_names_update_object all_tags_update_object)

lemma frame_set_hide_viewport:
  "ob_names (set_hide_viewport n h s) = ob_names s" "all_tags (set_hide_viewport n h s) = all_tags s"
  by (simp_all add: set_hide_viewport_def ob_names_update_object all_tags_update_object)

lemma frame_set_active:
  "ob_names (set_active n s) = ob_names s" "all_tags (set_active n s) = all_tags s"
  by (simp_all add: set_active_def ob_names_def all_tags_def)

lemma frame_parent_set:
  "ob_names (parent_set s) = ob_names s" "all_tags (parent_set s) = all_tags s"
  by (simp_all add: parent_set_def ob_names_def all_tags_def split: option.splits)

lemma frame_parent_clear:
  "ob_names (parent_clear s) = ob_names s" "all_tags (parent_clear s) = all_tags s"
  by (simp_all add: parent_clear_def ob_names_def all_tags_def)

lemma frame_objects_unlink:
  "ob_names (objects_unlink r n s) = ob_names s" "all_tags (objects_unlink r n s) = all_tags s"
  by (simp_all add: objects_unlink_def ob_names_update_collection all_tags_update_collection)

lemma frame_children_unlink:
  "ob_names (children_unlink r c s) = ob_names s" "all_tags (children_unlink r c s) = all_tags s"
  by (cases c; simp add: children_unlink_def ob_names_update_collection all_tags_update_collection)+

lemma frame_objects_link:
  "ob_names (after (objects_link r n s)) = ob_names s"
  "all_tags (after (objects_link r n s)) = all_tags s"
  by (simp_all add: objects_link_def ob_names_update_collection all_tags_update_collection)

lemma frame_children_link:
  "ob_names (after (children_link r c s)) = ob_names s"
  "all_tags (after (children_link r c s)) = all_tags s"
  by (cases c; simp add: children_link_def ob_names_update_collection all_tags_update_collection)+

lemma fold_frame:
  "(\<And>x s. Q (f x s) = Q s) \<Longrightarrow> Q (fold f xs s) = Q s"
  by (induction xs arbitrary: s) simp_all

lemma for_each_frame:
  "(\<And>x s. Q (after (body x s)) = Q s) \<Longrightarrow> Q (after (for_each body xs s)) = Q s"
proof (induction xs arbitrary: s)
  case Nil
  then show ?case by simp
next
  case (Cons x xs)
  show ?case
  proof (cases "body x s")
    case (Inl e)
    with Cons.prems [of x s] show ?thesis by simp
  next
    case (Inr s')
    with Cons.prems [of x s] Cons.IH [OF Cons.prems, of s'] show ?thesis by simp
  qed
qed

lemma and_then_frame:
  "Q (after r) = Q s \<Longrightarrow> (\<And>s'. Q (after (f s')) = Q s') \<Longrightarrow> Q (after (and_then r f)) = Q s"
  by (cases r) (simp_all add: and_then_def)

lemma frame_hide_all_pivots:
  "ob_names (hide_all_pivots s) = ob_names s" "all_tags (hide_all_pivots s) = all_tags s"
  unfolding hide_all_pivots_def
  by (rule fold_frame; simp add: frame_set_hide_viewport split: option.splits)+

lemma frame_preserve_parent_hierarchy:
  "ob_names (snd (preserve_parent_hierarchy objs p s)) = ob_names s"
  "all_tags (snd (preserve_parent_hierarchy objs p s)) = all_tags s"
  by (simp_all add: preserve_parent_hierarchy_def Let_def frame_parent_set frame_set_active
      fold_frame [where Q = ob_names] fold_frame [where Q = all_tags]
      frame_select_set frame_select_all_deselect)

lemmas frame =
  frame_select_all_deselect frame_select_set frame_set_hide_viewport frame_set_active
  frame_parent_set frame_parent_clear frame_objects_unlink frame_children_unlink
  frame_objects_link frame_children_link frame_hide_all_pivots frame_preserve_parent_hierarchy

lemma grows_same: "ob_names s' = ob_names s \<Longrightarrow> all_tags s' = all_tags s \<Longrightarrow> grows s s'"
  by (simp add: grows_def)

lemma grows_trans: "grows s s' \<Longrightarrow> grows s' s'' \<Longrightarrow> grows s s''"
  by (auto simp: grows_def)

lemma grows_live: "pivot_tags_live s \<Longrightarrow> grows s s' \<Longrightarrow> pivot_tags_live s'"
  by (auto simp: pivot_tags_live_iff grows_def)

lemma frame_relink:
  "ob_names (after (relink col obj s)) = ob_names s"
  "all_tags (after (relink col obj s)) = all_tags s"
  by (simp_all add: relink_def frame fold_frame [where Q = ob_names] fold_frame [where Q = all_tags])

lemma frame_add_one:
  "ob_names (after (add_one col obj s)) = ob_names s"
  "all_tags (after (add_one col obj s)) = all_tags s"
  by (simp_all add: add_one_def frame fold_frame [where Q = ob_names] fold_frame [where Q = all_tags])

lemma frame_remove_one:
  "ob_names (after (remove_one col obj s)) = ob_names s"
  "all_tags (after (remove_one col obj s)) = all_tags s"
  by (simp_all add: remove_one_def Let_def frame)

lemma ob_names_merge_one: "ob_names (after (merge_one pc pp col s)) = ob_names s"
  unfolding merge_one_def Let_def
  by (rule and_then_frame [where Q = ob_names]) (simp_all add: frame split: option.splits)

lemma all_tags_merge_one: "all_tags (after (merge_one pc pp col s)) = all_tags s"
  unfolding merge_one_def Let_def
  by (rule and_then_frame [where Q = all_tags]) (simp_all add: frame split: option.splits)

lemmas frame_merge_one = ob_names_merge_one all_tags_merge_one

lemma frame_unmerge_one:
  "ob_names (after (unmerge_one pc col s)) = ob_names s"
  "all_tags (after (unmerge_one pc col s)) = all_tags s"
  by (simp_all add: unmerge_one_def Let_def frame split: option.splits)

lemma frame_restore_one:
  "ob_names (restore_one item s) = ob_names s"
  "all_tags (restore_one item s) = all_tags s"
  by (simp_all add: restore_one_def ob_names_update_collection all_tags_update_collection
      split: prod.splits option.splits)

lemma frame_collections_new:
  "ob_names (snd (collections_new h n s)) = ob_names s"
  "all_tags (snd (collections_new h n s)) = all_tags s"
  by (simp_all add: collections_new_def Let_def ob_names_def all_tags_def List.map_filter_def
      new_collection_def)

lemma frame_create_smart_pivot:
  assumes "create_smart_pivot h cn loc ip s = (p, s')"
  shows "ob_names s' = ob_names s @ [p]" and "all_tags s' = all_tags s"
proof -
  let ?mid = "s\<lparr>objects := objects s @ [new_object p]\<rparr>"
  from assms have p: "p = h (''Pivot_'' @ cn) (map ob_name (objects s))"
    by (auto simp: create_smart_pivot_def objects_new_def Let_def)
  from assms p obtain f where s': "s' = update_object p f ?mid" and f: "\<And>ob. ob_name (f ob) = ob_name ob"
    by (auto simp: create_smart_pivot_def objects_new_def Let_def)
  show "ob_names s' = ob_names s @ [p]"
    unfolding s' by (simp add: ob_names_update_object f) (simp add: ob_names_def new_object_def)
  show "all_tags s' = all_tags s"
    unfolding s' by (simp add: all_tags_update_object) (simp add: all_tags_def)
qed

lemma tags_set_pivot:
  "set (all_tags (update_collection r (\<lambda>c. c\<lparr>col_ez_pivot := Some p\<rparr>) s)) \<subseteq>
     insert p (set (all_tags s))"
  by (cases r) (auto simp: all_tags_def update_collection_def List.map_filter_def split: if_splits)

lemma footprint_frame:
  "footprint (select_all_deselect s) = footprint s"
  "footprint (select_set n s) = footprint s"
  "footprint (set_hide_viewport n h s) = footprint s"
  "footprint (set_active n s) = footprint s"
  "footprint (parent_set s) = footprint s"
  "footprint (parent_clear s) = footprint s"
  "footprint (objects_unlink r n s) = footprint s"
  "footprint (children_unlink r c s) = footprint s"
  "footprint (after (objects_link r n s)) = footprint s"
  "footprint (after (children_link r c s)) = footprint s"
  "footprint (hide_all_pivots s) = footprint s"
  "footprint (snd (preserve_parent_hierarchy objs n s)) = footprint s"
  "footprint (after (relink r n s)) = footprint s"
  "footprint (after (add_one r n s)) = footprint s"
  "footprint (after (remove_one r n s)) = footprint s"
  "footprint (after (merge_one r n c s)) = footprint s"
  "footprint (after (unmerge_one r c s)) = footprint s"
  "footprint (restore_one item s) = footprint s"
  "footprint (snd (collections_new host_name n s)) = footprint s"
  by (simp_all add: footprint_def frame frame_relink frame_add_one frame_remove_one
      frame_merge_one frame_unmerge_one frame_restore_one frame_collections_new)

lemma grows_footprint: "footprint s' = footprint s \<Longrightarrow> grows s s'"
  by (simp add: footprint_def grows_same)

lemma footprint_select: "footprint (scene_of (ez_select_collection_execute s)) = footprint s"
proof (cases "active_layer_collection s")
  case None
  then show ?thesis
    by (simp add: ez_select_collection_execute_def scene_of_cancel)
next
  case (Some alc)
  let ?s1 = "select_all_deselect s"
  let ?s2 = "fold (\<lambda>obj sx. if non_pivot sx obj then select_set obj sx else sx) (objects_of ?s1 alc) ?s1"
  have "footprint ?s2 = footprint ?s1"
    by (rule fold_frame) (simp add: footprint_frame)
  then show ?thesis
    using Some
    by (simp add: ez_select_collection_execute_def Let_def scene_of_def footprint_frame
        split: list.splits)
qed

lemma footprint_add: "footprint (scene_of (ez_add_to_collection_execute s)) = footprint s"
proof -
  have body: "footprint (after (and_then (for_each (add_one col) sel s)
      (\<lambda>s1. Inr (snd (preserve_parent_hierarchy sel p s1))))) = footprint s" for col sel p
    by (rule and_then_frame, rule for_each_frame) (simp_all add: footprint_frame)
  show ?thesis
    by (simp add: ez_add_to_collection_execute_def Let_def scene_of_cancel scene_of_finish body
        split: option.splits)
qed

lemma footprint_remove: "footprint (scene_of (ez_remove_from_collection_execute s)) = footprint s"
proof -
  have body: "footprint (after (for_each (remove_one col) sel s)) = footprint s" for col sel
    by (rule for_each_frame) (simp add: footprint_frame)
  show ?thesis
    by (simp add: ez_remove_from_collection_execute_def Let_def scene_of_cancel scene_of_finish
        body split: option.splits)
qed

lemma footprint_unlock: "footprint (scene_of (ez_pivot_unlock_execute s)) = footprint s"
proof -
  have sel: "footprint (fold select_set xs s') = footprint s'" for xs s'
    by (rule fold_frame) (simp add: footprint_frame)
  show ?thesis
    by (simp add: ez_pivot_unlock_execute_def Let_def cancel_def scene_of_def
        footprint_frame sel split: option.splits list.splits)
qed

lemma footprint_lock: "footprint (scene_of (ez_pivot_lock_execute s)) = footprint s"
  by (simp add: ez_pivot_lock_execute_def Let_def cancel_def scene_of_def
      footprint_frame split: option.splits)

lemma footprint_solo: "footprint (scene_of (ez_toggle_solo_collection_execute s)) = footprint s"
proof -
  have restore: "footprint (fold restore_one backup s) = footprint s" for backup
    by (rule fold_frame) (simp add: footprint_frame)
  have hide: "List.map_filter col_ez_pivot (map (\<lambda>c. set_visibility c (P c)) cs) =
      List.map_filter col_ez_pivot cs" for P cs
    by (induction cs) (simp_all add: List.map_filter_def set_visibility_def)
  have on: "footprint (s\<lparr>solo_backup := b,
      collections := map (\<lambda>c. set_visibility c (P c)) (collections s)\<rparr>) = footprint s" for b P
    using hide [of P "collections s"]
    by (simp add: footprint_def ob_names_def all_tags_def List.map_filter_def)
  have off: "footprint (s'\<lparr>solo_backup := None\<rparr>) = footprint s'" for s'
    by (simp add: footprint_def ob_names_def all_tags_def)
  show ?thesis
    by (simp add: ez_toggle_solo_collection_execute_def Let_def cancel_def scene_of_def
        on off restore split: option.splits)
qed

lemma footprint_unmerge: "footprint (scene_of (ez_unmerge_collections_execute s)) = footprint s"
proof -
  have body: "footprint (after (for_each (unmerge_one col) cs s)) = footprint s" for col cs
    by (rule for_each_frame) (simp add: footprint_frame)
  show ?thesis
    by (simp add: ez_unmerge_collections_execute_def Let_def scene_of_cancel scene_of_finish
        body split: option.splits)
qed

lemma grows_refl: "grows s s"
  by (simp add: grows_def)

lemma grows_cong: "footprint s' = footprint s \<Longrightarrow> grows s' x \<Longrightarrow> grows s x"
  by (simp add: footprint_def grows_def)

lemma grows_and_then:
  assumes "footprint (after r) = footprint s"
    and "\<And>s'. footprint s' = footprint s \<Longrightarrow> grows s' (after (f s'))"
  shows "grows s (after (and_then r f))"
proof (cases r)
  case (Inl e)
  with assms(1) show ?thesis
    by (simp add: and_then_def grows_footprint)
next
  case (Inr s')
  with assms(1) have "footprint s' = footprint s" by simp
  then have "grows s (after (f s'))"
    by (rule grows_cong) (rule assms(2), fact)
  with Inr show ?thesis by (simp add: and_then_def)
qed

lemma footprint_update_collection:
  "(\<And>c. col_ez_pivot (f c) = col_ez_pivot c) \<Longrightarrow>
   footprint (update_collection r f s) = footprint s"
  by (simp add: footprint_def ob_names_update_collection all_tags_update_collection)

lemma grows_adopt:
  assumes "p \<in> set (ob_names s)"
  shows "grows s (set_active p (select_set p (select_all_deselect (set_hide_viewport p False
           (hide_all_pivots (update_collection col (\<lambda>c. c\<lparr>col_ez_pivot := Some p\<rparr>) s))))))"
  using assms tags_set_pivot [of col p s]
  by (auto simp: grows_def frame ob_names_update_collection)

lemma grows_create_fill: "grows s3 (after (create_fill h cn col objs s3))"
  unfolding create_fill_def
proof (rule grows_and_then)
  show "footprint (after (for_each (relink col) objs s3)) = footprint s3"
    by (rule for_each_frame) (simp add: footprint_frame)
next
  fix s4
  obtain pivot s5 where sp:
    "create_smart_pivot h cn (vector_mean (map (world_translation s4) objs)) False s4 = (pivot, s5)"
    by (cases "create_smart_pivot h cn (vector_mean (map (world_translation s4) objs)) False s4")
  note fr = frame_create_smart_pivot [OF sp]
  have g45: "grows s4 s5"
    using fr by (auto simp: grows_def)
  have "grows s5 (after (and_then (objects_link col pivot s5) (\<lambda>s6.
      Inr (set_active pivot (select_set pivot (select_all_deselect (set_hide_viewport pivot False
        (hide_all_pivots (update_collection col (\<lambda>c. c\<lparr>col_ez_pivot := Some pivot\<rparr>)
          (snd (preserve_parent_hierarchy objs pivot s6)))))))))))"
  proof (rule grows_and_then)
    show "footprint (after (objects_link col pivot s5)) = footprint s5"
      by (simp add: footprint_frame)
  next
    fix s6
    assume "footprint s6 = footprint s5"
    with fr have "pivot \<in> set (ob_names (snd (preserve_parent_hierarchy objs pivot s6)))"
      by (simp add: footprint_def frame)
    then have "grows (snd (preserve_parent_hierarchy objs pivot s6))
        (set_active pivot (select_set pivot (select_all_deselect (set_hide_viewport pivot False
          (hide_all_pivots (update_collection col (\<lambda>c. c\<lparr>col_ez_pivot := Some pivot\<rparr>)
            (snd (preserve_parent_hierarchy objs pivot s6))))))))"
      by (rule grows_adopt)
    then show "grows s6 (after (Inr (set_active pivot (select_set pivot (select_all_deselect
        (set_hide_viewport pivot False (hide_all_pivots (update_collection col
          (\<lambda>c. c\<lparr>col_ez_pivot := Some pivot\<rparr>)
          (snd (preserve_parent_hierarchy objs pivot s6))))))))))"
      by (simp add: grows_cong [OF footprint_frame(12)])
  qed
  with g45 have "grows s4 (after (and_then (objects_link col pivot s5) (\<lambda>s6.
      Inr (set_active pivot (select_set pivot (select_all_deselect (set_hide_viewport pivot False
        (hide_all_pivots (update_collection col (\<lambda>c. c\<lparr>col_ez_pivot := Some pivot\<rparr>)
          (snd (preserve_parent_hierarchy objs pivot s6)))))))))))"
    by (rule grows_trans)
  then show "grows s4 (after (let center = vector_mean (map (world_translation s4) objs)
        in case create_smart_pivot h cn center False s4 of
             (pivot, s5) \<Rightarrow>
               and_then (objects_link col pivot s5) (\<lambda>s6.
                 (let s7 = snd (preserve_parent_hierarchy objs pivot s6);
                      s8 = update_collection col (\<lambda>c. c\<lparr>col_ez_pivot := Some pivot\<rparr>) s7;
                      s9 = hide_all_pivots s8;
                      s10 = set_hide_viewport pivot False s9;
                      s11 = select_all_deselect s10;
                      s12 = select_set pivot s11
                  in Inr (set_active pivot s12)))))"
    by (simp add: Let_def sp)
qed

lemma grows_create: "grows s (scene_of (ez_create_collection_execute h sfx s))"
proof (cases "selected_objects s = [] \<or> strip sfx = []")
  case True
  then show ?thesis
    by (auto simp: ez_create_collection_execute_def Let_def scene_of_cancel grows_refl)
next
  case False
  let ?cn = "generate_unique_name (''COL_'' @ strip sfx) (map col_name (collections s))"
  obtain col_n s1 where new: "collections_new h ?cn s = (col_n, s1)"
    by (cases "collections_new h ?cn s")
  then have s1: "footprint s1 = footprint s"
    using footprint_frame(19) [of h ?cn s] by simp
  let ?s2 = "update_collection (Data_Collection col_n) (\<lambda>c. c\<lparr>col_color_tag := ''COLOR_02''\<rparr>) s1"
  have s2: "footprint ?s2 = footprint s"
    using s1 by (simp add: footprint_update_collection)
  have "grows ?s2 (after (and_then (children_link Scene_Collection (Data_Collection col_n) ?s2)
      (create_fill h ?cn (Data_Collection col_n) (selected_objects s))))"
    by (rule grows_and_then) (simp_all add: footprint_frame grows_create_fill)
  then have "grows s (after (and_then (children_link Scene_Collection (Data_Collection col_n) ?s2)
      (create_fill h ?cn (Data_Collection col_n) (selected_objects s))))"
    by (rule grows_cong [OF s2])
  then show ?thesis
    using False new
    by (simp add: ez_create_collection_execute_def Let_def scene_of_finish)
qed

lemma grows_merge_into: "grows s3 (after (merge_into h pn pc sel locs s3))"
proof -
  obtain pivot s4 where sp: "create_smart_pivot h pn (vector_mean locs) True s3 = (pivot, s4)"
    by (cases "create_smart_pivot h pn (vector_mean locs) True s3")
  note fr = frame_create_smart_pivot [OF sp]
  have g34: "grows s3 s4"
    using fr by (auto simp: grows_def)
  have "grows s4 (after (and_then (objects_link pc pivot s4) (\<lambda>s5.
      and_then (for_each (merge_one pc pivot) sel s5) (\<lambda>s6.
        Inr (set_active pivot (select_set pivot (select_all_deselect (set_hide_viewport pivot False
          (hide_all_pivots (update_collection pc (\<lambda>c. c\<lparr>col_ez_pivot := Some pivot\<rparr>) s6))))))))))"
  proof (rule grows_and_then)
    show "footprint (after (objects_link pc pivot s4)) = footprint s4"
      by (simp add: footprint_frame)
  next
    fix s5
    assume s5: "footprint s5 = footprint s4"
    show "grows s5 (after (and_then (for_each (merge_one pc pivot) sel s5) (\<lambda>s6.
        Inr (set_active pivot (select_set pivot (select_all_deselect (set_hide_viewport pivot False
          (hide_all_pivots (update_collection pc (\<lambda>c. c\<lparr>col_ez_pivot := Some pivot\<rparr>) s6)))))))))"
    proof (rule grows_and_then)
      show "footprint (after (for_each (merge_one pc pivot) sel s5)) = footprint s5"
        by (rule for_each_frame) (simp add: footprint_frame)
    next
      fix s6
      assume "footprint s6 = footprint s5"
      with s5 fr have "pivot \<in> set (ob_names s6)"
        by (simp add: footprint_def)
      then show "grows s6 (after (Inr (set_active pivot (select_set pivot (select_all_deselect
          (set_hide_viewport pivot False (hide_all_pivots
            (update_collection pc (\<lambda>c. c\<lparr>col_ez_pivot := Some pivot\<rparr>) s6))))))))"
        by (simp add: grows_adopt)
    qed
  qed
  with g34 have "grows s3 (after (and_then (objects_link pc pivot s4) (\<lambda>s5.
      and_then (for_each (merge_one pc pivot) sel s5) (\<lambda>s6.
        Inr (set_active pivot (select_set pivot (select_all_deselect (set_hide_viewport pivot False
          (hide_all_pivots (update_collection pc (\<lambda>c. c\<lparr>col_ez_pivot := Some pivot\<rparr>) s6))))))))))"
    by (rule grows_trans)
  then show ?thesis
    by (simp add: merge_into_def Let_def sp)
qed

lemma grows_merge: "grows s (scene_of (ez_merge_collections_execute h nm s))"
proof (cases "length (selected_ez_collections s) < 2 \<or> strip nm = []")
  case True
  then show ?thesis
    by (auto simp: ez_merge_collections_execute_def Let_def scene_of_cancel grows_refl)
next
  case False
  let ?pn = "generate_unique_name (''COL_'' @ strip nm) (map col_name (collections s))"
  obtain parent_n s1 where new: "collections_new h ?pn s = (parent_n, s1)"
    by (cases "collections_new h ?pn s")
  then have s1: "footprint s1 = footprint s"
    using footprint_frame(19) [of h ?pn s] by simp
  let ?s2 = "update_collection (Data_Collection parent_n) (\<lambda>c. c\<lparr>col_color_tag := ''COLOR_01''\<rparr>) s1"
  have s2: "footprint ?s2 = footprint s"
    using s1 by (simp add: footprint_update_collection)
  show ?thesis
  proof (cases "children_link Scene_Collection (Data_Collection parent_n) ?s2")
    case (Inl e)
    have "footprint (after (children_link Scene_Collection (Data_Collection parent_n) ?s2)) =
        footprint ?s2"
      by (simp add: footprint_frame)
    with Inl s2 have "footprint e = footprint s" by simp
    then show ?thesis
      using False new Inl
      by (simp add: ez_merge_collections_execute_def Let_def scene_of_def grows_footprint)
  next
    case (Inr s3)
    have "footprint (after (children_link Scene_Collection (Data_Collection parent_n) ?s2)) =
        footprint ?s2"
      by (simp add: footprint_frame)
    with Inr s2 have s3: "footprint s3 = footprint s" by simp
    then have "grows s (after (merge_into h ?pn (Data_Collection parent_n) sel locs s3))" for sel locs
      by (rule grows_cong) (rule grows_merge_into)
    then show ?thesis
      using False new Inr s3
      by (simp add: ez_merge_collections_execute_def Let_def scene_of_cancel scene_of_finish
          grows_footprint)
  qed
qed

lemma footprint_show_pivot: "footprint (snd (show_pivot col st)) = footprint (snd st)"
  by (cases st) (simp add: show_pivot_def footprint_frame split: option.splits)

lemma footprint_show_hierarchies:
  "footprint (show_hierarchies depth names st) = footprint (snd st)"
proof (induction depth names st rule: show_hierarchies.induct)
  case (1 depth st)
  then show ?case by simp
next
  case (2 depth obj_name rest st)
  have fold_show: "footprint (snd (fold show_pivot h st)) = footprint (snd st)" for h
    by (rule fold_frame [where Q = "\<lambda>st. footprint (snd st)"]) (rule footprint_show_pivot)
  show ?case
    using 2 by (simp add: fold_show split: option.splits sum.splits)
qed

lemma footprint_selection_timer: "footprint (selection_timer depth s) = footprint s"
proof -
  have mark: "footprint (s\<lparr>last_selected := x\<rparr>) = footprint s" for x
    by (simp add: footprint_def ob_names_def all_tags_def)
  have hide: "footprint (hide_all_pivots (s\<lparr>last_selected := x\<rparr>)) = footprint s" for x
    by (simp add: footprint_frame mark)
  show ?thesis
    by (simp add: selection_timer_def Let_def footprint_show_hierarchies hide)
qed

text \<open>
  C8. If every collection that carries an \<^verbatim>\<open>ez_pivot\<close> tag names an existing
  object, the same holds in the scene any operator leaves (the outliner selection,
  create, add, remove, unlock, lock, solo, merge and unmerge, whether it finished,
  cancelled or raised) and in the scene the selection timer leaves: no operator
  removes or renames an object, and a tag is only ever set to the name of the pivot
  just made.
\<close>

theorem pivot_tags_stay_live:
  assumes "pivot_tags_live s"
  shows "pivot_tags_live (scene_of (execute host_name op s)) \<and>
         pivot_tags_live (selection_timer depth s)"
proof
  have "grows s (scene_of (execute host_name op s))"
    by (cases op)
      (simp_all add: grows_create grows_merge grows_footprint footprint_select footprint_add
        footprint_remove footprint_unlock footprint_lock footprint_solo footprint_unmerge)
  with assms show "pivot_tags_live (scene_of (execute host_name op s))"
    by (rule grows_live)
  from assms show "pivot_tags_live (selection_timer depth s)"
    by (rule grows_live) (rule grows_footprint, rule footprint_selection_timer)
qed

theorem pivot_tags_stay_live_witness:
  "pivot_tags_live studio_scene \<and>
   pivot_tags_live (scene_of (execute host_keeps (Merge_collections ''Group'') studio_scene)) \<and>
   pivot_tags_live (selection_timer 3 studio_scene)"
proof -
  have h: "pivot_tags_live studio_scene"
    by (simp add: studio_scene_def example_defs pivot_tags_live_def all_tags_def
        List.map_filter_def get_object_def)
  from pivot_tags_stay_live [OF h, of host_keeps "Merge_collections ''Group''" 3] h
  show ?thesis by simp
qed

subsection \<open>The hierarchy walk\<close>

text \<open>
  With any collection in \<^verbatim>\<open>bpy.data.collections\<close>, a call of
  \<^verbatim>\<open>find_parent_collections\<close> reaches the membership test of line 138 on the first
  turn of its loop, and the test raises. So the walk returns only for an object that
  no EZCollection holds, and then the empty list.
\<close>

lemma find_parent_collections_raises:
  "data_collections \<noteq> [] \<Longrightarrow>
     find_parent_collections (Suc depth) data_collections child_col hierarchy = Inl TypeError"
  by (cases data_collections) (simp_all add: prop_collection_contains_def)

lemma fold_result_raises:
  assumes "\<And>x acc. P x \<Longrightarrow> f x acc = Inl e"
    and "\<And>x acc. \<not> P x \<Longrightarrow> f x acc = Inr acc"
  shows "fold_result f xs acc = (if list_ex P xs then Inl e else Inr acc)"
proof (induction xs)
  case Nil
  then show ?case by simp
next
  case (Cons x xs)
  then show ?case
    by (cases "P x") (simp_all add: assms)
qed

lemma hierarchy_raises:
  assumes "collections s \<noteq> []"
  shows "get_collection_hierarchy depth s obj =
    (if list_ex (is_ez s) (users_collection s obj)
     then Inl (if depth = 0 then RecursionError else TypeError) else Inr [])"
proof (cases depth)
  case 0
  show ?thesis
    unfolding get_collection_hierarchy_def 0
    by (rule fold_result_raises [THEN trans]) simp_all
next
  case (Suc d)
  show ?thesis
    unfolding get_collection_hierarchy_def Suc
    by (rule fold_result_raises [THEN trans])
      (simp_all add: find_parent_collections_raises [OF assms]
        del: find_parent_collections.simps)
qed

text \<open>
  C4 fails on the code. In \<open>nested_scene\<close> the collection-parent relation is
  acyclic, the cube lies in the EZCollection \<^verbatim>\<open>COL_A\<close>, and \<^verbatim>\<open>COL_Top\<close> is an
  ancestor EZCollection of it (through the plain collection \<^verbatim>\<open>Group\<close>): both belong
  to the hierarchy the docstring promises. \<^verbatim>\<open>get_collection_hierarchy\<close> returns
  neither: it raises \<^verbatim>\<open>TypeError\<close> at the membership test, at every nesting Python
  allows (with none left, \<^verbatim>\<open>RecursionError\<close>).
\<close>

theorem hierarchy_walk_raises:
  "acyclic (set (parent_pairs (collections nested_scene))) \<and>
   Data_Collection ''COL_A'' \<in> claimed_hierarchy nested_scene ''Cube'' \<and>
   Data_Collection ''COL_Top'' \<in> claimed_hierarchy nested_scene ''Cube'' \<and>
   get_collection_hierarchy 0 nested_scene ''Cube'' = Inl RecursionError \<and>
   (\<forall>depth. get_collection_hierarchy (Suc depth) nested_scene ''Cube'' = Inl TypeError)"
proof (intro conjI)
  have pairs: "parent_pairs (collections nested_scene) =
      [(Data_Collection ''COL_A'', Data_Collection ''Group''),
       (Data_Collection ''Group'', Data_Collection ''COL_Top'')]"
    by (simp add: nested_scene_def example_defs parent_pairs_def)
  show "acyclic (set (parent_pairs (collections nested_scene)))"
    unfolding pairs
    by (rule acyclicI_order [where f = "rank_of [(''COL_A'', 2), (''Group'', 1)]"])
      (auto simp: rank_of_def)
  have up: "(Data_Collection ''COL_A'', Data_Collection ''COL_Top'') \<in>
      (set (parent_pairs (collections nested_scene)))\<^sup>*"
    unfolding pairs
    by (rule rtrancl_trans [of _ "Data_Collection ''Group''"]) auto
  have ez: "is_ez nested_scene (Data_Collection ''COL_Top'')"
      "is_ez nested_scene (Data_Collection ''COL_A'')"
      "Data_Collection ''COL_A'' \<in> set (users_collection nested_scene ''Cube'')"
    by (simp_all add: nested_scene_def example_defs is_ez_def deref_def get_collection_def
        is_ez_collection_def users_collection_def)
  from up ez show "Data_Collection ''COL_Top'' \<in> claimed_hierarchy nested_scene ''Cube''"
    unfolding claimed_hierarchy_def by blast
  from ez show "Data_Collection ''COL_A'' \<in> claimed_hierarchy nested_scene ''Cube''"
    unfolding claimed_hierarchy_def by blast
  show "get_collection_hierarchy 0 nested_scene ''Cube'' = Inl RecursionError"
    by (simp add: nested_scene_def example_defs get_collection_hierarchy_def
        users_collection_def is_ez_def deref_def get_collection_def is_ez_collection_def)
  show "\<forall>depth. get_collection_hierarchy (Suc depth) nested_scene ''Cube'' = Inl TypeError"
    by (simp add: nested_scene_def example_defs get_collection_hierarchy_def
        users_collection_def is_ez_def deref_def get_collection_def is_ez_collection_def
        prop_collection_contains_def)
qed

subsection \<open>The selection timer after a change of selection\<close>

text \<open>
  The timer hides every pivot before it asks for a hierarchy, and the exception of
  the walk is swallowed by its \<^verbatim>\<open>except\<close>: whatever is selected, a run that sees a
  changed selection leaves the scene as \<^verbatim>\<open>hide_all_pivots\<close> made it.
\<close>

lemma collections_hide_all_pivots: "collections (hide_all_pivots s) = collections s"
  unfolding hide_all_pivots_def
  by (rule fold_frame [where Q = collections])
    (simp add: set_hide_viewport_def update_object_def split: option.splits)

lemma show_hierarchies_raises:
  "collections (snd st) \<noteq> [] \<Longrightarrow> show_hierarchies depth names st = snd st"
proof (induction names)
  case Nil
  then show ?case by simp
next
  case (Cons obj_name names)
  show ?case
  proof (cases "get_object (snd st) obj_name")
    case None
    with Cons show ?thesis by simp
  next
    case (Some obj)
    with Cons show ?thesis
      by (simp add: hierarchy_raises)
  qed
qed

lemma selection_timer_shows_nothing:
  assumes "set (selected_objects s) \<noteq> last_selected s" and "collections s \<noteq> []"
  shows "selection_timer depth s =
    hide_all_pivots (s\<lparr>last_selected := set (selected_objects s)\<rparr>)"
  using assms
  by (simp add: selection_timer_def Let_def show_hierarchies_raises collections_hide_all_pivots)

text \<open>
  C6 fails on the code. In \<open>merged_scene\<close> the cube has just been selected. The
  cube lies in the EZCollection \<^verbatim>\<open>COL_A\<close>, whose parent is the EZCollection
  \<^verbatim>\<open>COL_Group\<close>, and both have their pivot objects; the timer should leave these
  two pivots visible and the pivot of \<^verbatim>\<open>COL_B\<close> hidden. It leaves all three
  hidden, at every nesting Python allows.
\<close>

theorem selection_timer_leaves_hierarchy_hidden:
  "set (selected_objects merged_scene) \<noteq> last_selected merged_scene \<and>
   selected_objects merged_scene = [''Cube''] \<and>
   Data_Collection ''COL_A'' \<in> claimed_hierarchy merged_scene ''Cube'' \<and>
   Data_Collection ''COL_Group'' \<in> claimed_hierarchy merged_scene ''Cube'' \<and>
   map_option ob_name (get_collection_pivot merged_scene (Data_Collection ''COL_A'')) =
     Some ''Pivot_COL_A'' \<and>
   map_option ob_name (get_collection_pivot merged_scene (Data_Collection ''COL_Group'')) =
     Some ''Pivot_COL_Group'' \<and>
   (\<forall>depth. map (\<lambda>ob. (ob_name ob, ob_hide_viewport ob)) (objects (selection_timer depth merged_scene)) =
      [(''Cube'', False), (''Pivot_COL_A'', True), (''Ball'', False), (''Pivot_COL_B'', True),
       (''Pivot_COL_Group'', True)])"
proof (intro conjI)
  show sel: "selected_objects merged_scene = [''Cube'']"
    by (simp add: merged_scene_def example_defs selected_objects_def)
  show changed: "set (selected_objects merged_scene) \<noteq> last_selected merged_scene"
    unfolding sel by (simp add: merged_scene_def example_defs)
  have pairs: "parent_pairs (collections merged_scene) =
      [(Data_Collection ''COL_A'', Data_Collection ''COL_Group''),
       (Data_Collection ''COL_B'', Data_Collection ''COL_Group'')]"
    by (simp add: merged_scene_def example_defs parent_pairs_def)
  have up: "(Data_Collection ''COL_A'', Data_Collection ''COL_Group'') \<in>
      (set (parent_pairs (collections merged_scene)))\<^sup>*"
    unfolding pairs by auto
  have ez: "is_ez merged_scene (Data_Collection ''COL_Group'')"
      "is_ez merged_scene (Data_Collection ''COL_A'')"
      "Data_Collection ''COL_A'' \<in> set (users_collection merged_scene ''Cube'')"
    by (simp_all add: merged_scene_def example_defs is_ez_def deref_def get_collection_def
        is_ez_collection_def users_collection_def)
  from up ez show "Data_Collection ''COL_Group'' \<in> claimed_hierarchy merged_scene ''Cube''"
    unfolding claimed_hierarchy_def by blast
  from ez show "Data_Collection ''COL_A'' \<in> claimed_hierarchy merged_scene ''Cube''"
    unfolding claimed_hierarchy_def by blast
  show "map_option ob_name (get_collection_pivot merged_scene (Data_Collection ''COL_A'')) =
      Some ''Pivot_COL_A''"
    by (simp add: merged_scene_def example_defs get_collection_pivot_def deref_def
        get_collection_def get_object_def)
  show "map_option ob_name (get_collection_pivot merged_scene (Data_Collection ''COL_Group'')) =
      Some ''Pivot_COL_Group''"
    by (simp add: merged_scene_def example_defs get_collection_pivot_def deref_def
        get_collection_def get_object_def)
  have nonempty: "collections merged_scene \<noteq> []"
    by (simp add: merged_scene_def example_defs)
  have "map (\<lambda>ob. (ob_name ob, ob_hide_viewport ob))
      (objects (hide_all_pivots (merged_scene\<lparr>last_selected := set (selected_objects merged_scene)\<rparr>))) =
      [(''Cube'', False), (''Pivot_COL_A'', True), (''Ball'', False), (''Pivot_COL_B'', True),
       (''Pivot_COL_Group'', True)]"
    by (simp add: merged_scene_def example_defs hide_all_pivots_def get_object_def
        set_hide_viewport_def update_object_def)
  then show "\<forall>depth. map (\<lambda>ob. (ob_name ob, ob_hide_viewport ob))
      (objects (selection_timer depth merged_scene)) =
      [(''Cube'', False), (''Pivot_COL_A'', True), (''Ball'', False), (''Pivot_COL_B'', True),
       (''Pivot_COL_Group'', True)]"
    by (simp add: selection_timer_shows_nothing [OF changed nonempty])
qed

end
